theory Spec2Isabelle
  imports Main
begin

section \<open>JavaScript strings and numbers\<close>

text \<open>
  The parts of the JavaScript library the sources call. Strings are ASCII byte strings;
  \<open>toLowerCase\<close> and \<open>toUpperCase\<close> change the ASCII letters.
\<close>

definition toLowerCase_char :: "char \<Rightarrow> char" where
  "toLowerCase_char c =
     (let n = (of_char c :: nat) in if 65 \<le> n \<and> n \<le> 90 then char_of (n + 32) else c)"

definition toUpperCase_char :: "char \<Rightarrow> char" where
  "toUpperCase_char c =
     (let n = (of_char c :: nat) in if 97 \<le> n \<and> n \<le> 122 then char_of (n - 32) else c)"

definition toLowerCase :: "string \<Rightarrow> string" where
  "toLowerCase s = map toLowerCase_char s"

definition toUpperCase :: "string \<Rightarrow> string" where
  "toUpperCase s = map toUpperCase_char s"

text \<open>\<open>s.includes(sub)\<close>: \<open>sub\<close> occurs in \<open>s\<close> as a contiguous substring.\<close>

fun str_includes :: "string \<Rightarrow> string \<Rightarrow> bool" where
  "str_includes [] sub = (sub = [])"
| "str_includes (c # cs) sub = (take (length sub) (c # cs) = sub \<or> str_includes cs sub)"

text \<open>A string or a number is truthy unless it is absent, empty or zero.\<close>

definition truthy_str :: "string option \<Rightarrow> bool" where
  "truthy_str v = (case v of None \<Rightarrow> False | Some s \<Rightarrow> s \<noteq> [])"

definition truthy_num :: "int option \<Rightarrow> bool" where
  "truthy_num v = (case v of None \<Rightarrow> False | Some n \<Rightarrow> n \<noteq> 0)"

text \<open>The decimal text of an integer, as a template literal prints it.\<close>

definition digit_char :: "nat \<Rightarrow> char" where
  "digit_char d = char_of (48 + d)"

fun show_nat :: "nat \<Rightarrow> string" where
  "show_nat n = (if n < 10 then [digit_char n] else show_nat (n div 10) @ [digit_char (n mod 10)])"

declare show_nat.simps [simp del]

definition show_int :: "int \<Rightarrow> string" where
  "show_int i = (if i < 0 then CHR ''-'' # show_nat (nat (- i)) else show_nat (nat i))"

subsection \<open>Numbers and \<open>parseFloat\<close>\<close>

text \<open>
  A Number is an IEEE 754 double: not-a-number, an infinity, or a finite value
  \<open>m * 2^p\<close> held as \<open>Fin m p\<close> (the two zeros are not told apart; \<open><\<close> does not
  tell them apart either).
\<close>

datatype jsnum = NaN | PosInf | NegInf | Fin int int

fun js_less :: "jsnum \<Rightarrow> jsnum \<Rightarrow> bool" where
  "js_less NaN _ = False"
| "js_less _ NaN = False"
| "js_less PosInf _ = False"
| "js_less _ NegInf = False"
| "js_less NegInf _ = True"
| "js_less _ PosInf = True"
| "js_less (Fin m1 p1) (Fin m2 p2) =
     (let p = min p1 p2 in m1 * 2 ^ nat (p1 - p) < m2 * 2 ^ nat (p2 - p))"

text \<open>
  Rounding the positive rational \<open>n / d\<close> to the nearest double, ties to even: with
  \<open>2^e \<le> n / d < 2^(e+1)\<close> the unit in the last place is \<open>2^p\<close> for
  \<open>p = max (e - 52) (-1074)\<close>, the mantissa is \<open>n / (d * 2^p)\<close> rounded to an
  integer, and a result of \<open>2^1024\<close> or more is infinite (\<open>None\<close>).
\<close>

fun bitlen :: "int \<Rightarrow> nat" where
  "bitlen n = (if n \<le> 0 then 0 else Suc (bitlen (n div 2)))"

declare bitlen.simps [simp del]

definition floor_log2 :: "int \<Rightarrow> int \<Rightarrow> int" where
  "floor_log2 n d =
     (let k = int (bitlen n) - int (bitlen d) in
      if (if 0 \<le> k then d * 2 ^ nat k \<le> n else d \<le> n * 2 ^ nat (- k)) then k else k - 1)"

definition round_half_even :: "int \<Rightarrow> int \<Rightarrow> int" where
  "round_half_even n d =
     (let q = n div d; r = n mod d in
      if 2 * r < d then q else if d < 2 * r then q + 1 else if even q then q else q + 1)"

definition to_double :: "int \<Rightarrow> int \<Rightarrow> (int \<times> int) option" where
  "to_double n d =
     (if n = 0 then Some (0, 0) else
      let p = max (floor_log2 n d - 52) (- 1074);
          m = (if 0 \<le> p then round_half_even n (d * 2 ^ nat p)
               else round_half_even (n * 2 ^ nat (- p)) d)
      in if 971 < p \<or> (p = 971 \<and> 2 ^ 53 \<le> m) then None else Some (m, p))"

text \<open>
  \<open>parseFloat\<close>: skip leading white space, read the longest prefix that is a
  \<open>StrDecimalLiteral\<close> (a sign, then \<open>Infinity\<close> or digits with an optional
  fraction and an optional exponent), and round its value to a double. No such prefix
  gives \<open>NaN\<close>.
\<close>

definition is_digit :: "char \<Rightarrow> bool" where
  "is_digit c = (48 \<le> (of_char c :: nat) \<and> (of_char c :: nat) \<le> 57)"

definition is_space :: "char \<Rightarrow> bool" where
  "is_space c = ((of_char c :: nat) \<in> {9, 10, 11, 12, 13, 32})"

text \<open>\<open>s.trim()\<close>: the white space at both ends is removed.\<close>

definition trim :: "string \<Rightarrow> string" where
  "trim s = rev (dropWhile is_space (rev (dropWhile is_space s)))"

fun digits_val :: "int \<Rightarrow> string \<Rightarrow> int" where
  "digits_val acc [] = acc"
| "digits_val acc (c # cs) = digits_val (10 * acc + (of_char c - 48)) cs"

definition split_sign :: "string \<Rightarrow> bool \<times> string" where
  "split_sign s =
     (case s of
        [] \<Rightarrow> (False, [])
      | c # r \<Rightarrow> if c = CHR ''-'' then (True, r) else if c = CHR ''+'' then (False, r) else (False, s))"

definition exponent_part :: "string \<Rightarrow> int" where
  "exponent_part s =
     (case s of
        [] \<Rightarrow> 0
      | c # r \<Rightarrow>
          if c = CHR ''e'' \<or> c = CHR ''E'' then
            (let (neg, d) = split_sign r; ds = takeWhile is_digit d in
             if ds = [] then 0 else if neg then - digits_val 0 ds else digits_val 0 ds)
          else 0)"

definition fraction_part :: "string \<Rightarrow> string \<times> string" where
  "fraction_part s =
     (case s of
        [] \<Rightarrow> ([], [])
      | c # r \<Rightarrow> if c = CHR ''.'' then (takeWhile is_digit r, dropWhile is_digit r) else ([], s))"

definition parseFloat :: "string \<Rightarrow> jsnum" where
  "parseFloat s =
     (let (neg, u) = split_sign (dropWhile is_space s) in
      if take 8 u = ''Infinity'' then (if neg then NegInf else PosInf)
      else
        (let ip = takeWhile is_digit u;
             (fp, rest) = fraction_part (dropWhile is_digit u)
         in if ip = [] \<and> fp = [] then NaN
            else
              (let mant = digits_val 0 (ip @ fp);
                   x = exponent_part rest - int (length fp);
                   r = (if 0 \<le> x then to_double (mant * 10 ^ nat x) 1
                        else to_double mant (10 ^ nat (- x)))
               in case r of
                    None \<Rightarrow> (if neg then NegInf else PosInf)
                  | Some (m, p) \<Rightarrow> Fin (if neg then - m else m) p)))"

section \<open>Documents and collections\<close>

text \<open>
  The backend keeps its state in MongoDB collections. A collection is modelled by the
  documents it holds; an ObjectId is a natural number; a thrown JavaScript \<open>Error\<close> is
  its message. An \<open>async\<close> function that runs to its end without another request in
  between is a function from the database to the database and either the value it
  returns (\<open>Inr\<close>) or the message of the error it throws (\<open>Inl\<close>). Storage calls
  are taken to succeed unless the source itself makes them fail (a schema validator, a
  uniqueness rule). XP amounts are integers (JavaScript Numbers below \<open>2^53\<close>).
\<close>

type_synonym oid = nat
type_synonym errmsg = string

record user =
  totalXP :: int

record ledger_entry =
  le_userId :: oid
  le_eventId :: "oid option"
  deltaXP :: int
  balanceAfter :: int
  reason :: string
  description :: string
  le_metadata :: "(string \<times> oid) list"

text \<open>
  The metadata of a submitted event, with the fields the sources read and the types the
  API documents for them (\<open>txHash\<close>, \<open>tokenSymbol\<close> and \<open>amount\<close> are strings,
  \<open>chainId\<close> is a number); \<open>None\<close> is an absent field.
\<close>

record metadata =
  txHash :: "string option"
  chainId :: "int option"
  contractAddress :: "string option"
  tokenSymbol :: "string option"
  md_eventType :: "string option"
  protocol :: "string option"
  amount :: "string option"

datatype event_status = Recorded | Verified | Processed | Failed

record event =
  ev_id :: oid
  ev_userId :: oid
  ev_type :: string
  ev_metadata :: metadata
  dedupKey :: string
  status :: event_status
  occurredAt :: int
  failureReason :: "string option"

record xp_rule =
  actionType :: string
  xpAmount :: int
  dailyLimit :: "int option"
  minAmount :: "string option"
  validChains :: "int list"
  validProtocols :: "string list"
  cooldownMinutes :: int
  isActive :: bool

datatype referral_status = Pending | RVerified | Rewarded | Rejected

record referral =
  rf_id :: oid
  inviterUserId :: oid
  inviteeUserId :: oid
  referralCode :: string
  rf_status :: referral_status
  firstLogin :: bool
  firstOnchainAction :: bool
  minXPReached :: bool
  minXPThreshold :: int
  rewardInviterXP :: int
  rewardInviteeXP :: int
  rewardedAt :: "int option"

text \<open>
  The database: one list or map per collection, the unique index of the users on
  \<open>walletAddress\<close> (the user, if any, with a given lower-case address), and the calls
  made to the quest progress tracker (\<open>updateQuestProgress (userId, eventType,
  eventId)\<close>), whose own collections are not modelled.
\<close>

record db =
  users :: "oid \<rightharpoonup> user"
  walletIndex :: "string \<rightharpoonup> oid"
  ledger :: "ledger_entry list"
  events :: "event list"
  rules :: "xp_rule list"
  referrals :: "referral list"
  questUpdates :: "(oid \<times> string \<times> oid) list"

definition empty_db :: db where
  "empty_db = \<lparr>users = Map.empty, walletIndex = Map.empty, ledger = [], events = [], rules = [],
                referrals = [], questUpdates = []\<rparr>"

text \<open>
  What a request finds outside the database: the clock, the chain providers with the
  receipts they return, the contract registry parsed from the environment, and the
  collaborators whose code lies outside the modelled sources.
\<close>

record receipt =
  rc_status :: int
  rc_to :: "string option"
  rc_from :: string
  rc_blockNumber :: int

record env =
  now :: int
  startOfDay :: int
  providers :: "int \<rightharpoonup> (string option \<Rightarrow> errmsg + receipt option)"
  contracts :: "(string \<times> string option) list"
  deriveDedupKey :: "oid \<Rightarrow> string \<Rightarrow> metadata \<Rightarrow> string"
  questFanout :: "oid \<Rightarrow> string \<Rightarrow> oid \<Rightarrow> errmsg option"

section \<open>XPLedger.js\<close>

text \<open>The closed enumeration of the \<open>reason\<close> path of \<open>xpLedgerSchema\<close>.\<close>

definition reason_enum :: "string list" where
  "reason_enum =
     [''connect_wallet'', ''deposit'', ''supply'', ''borrow'', ''swap'', ''claim_faucet'',
      ''complete_quest'', ''referral_reward_inviter'', ''referral_reward_invitee'',
      ''select_strategy'', ''admin_adjustment'', ''penalty'', ''other'']"

text \<open>
  \<open>XPLedger.create\<close>: Mongoose validates the document against the schema before it
  inserts it. \<open>reason\<close> is required (an empty string counts as missing) and must be in
  the enumeration; \<open>balanceAfter\<close> has \<open>min: 0\<close>. A failed validation throws a
  ValidationError with Mongoose's message for the path, and inserts nothing. Keys of
  \<open>metadata\<close> that the schema does not declare are dropped (strict mode); the values
  under the declared keys are kept as they are and are not looked at (a number stands
  for each). The new entry is the last one in creation order.
\<close>

definition ledger_path_errors :: "ledger_entry \<Rightarrow> string list" where
  "ledger_path_errors e =
     (if balanceAfter e < 0
      then [''balanceAfter: Path `balanceAfter` ('' @ show_int (balanceAfter e)
            @ '') is less than minimum allowed value (0).'']
      else [])
     @ (if reason e = [] then [''reason: Path `reason` is required.'']
        else if reason e \<notin> set reason_enum
        then [''reason: `'' @ reason e @ ''` is not a valid enum value for path `reason`.'']
        else [])"

fun join_errors :: "string list \<Rightarrow> string" where
  "join_errors [] = []"
| "join_errors [x] = x"
| "join_errors (x # y # ys) = x @ '', '' @ join_errors (y # ys)"

definition ledger_validate :: "ledger_entry \<Rightarrow> errmsg option" where
  "ledger_validate e =
     (if ledger_path_errors e = [] then None
      else Some (''XPLedger validation failed: '' @ join_errors (ledger_path_errors e)))"

definition ledger_metadata_paths :: "string list" where
  "ledger_metadata_paths = [''questId'', ''referralId'', ''ruleId'', ''adminWallet'', ''extra'']"

definition ledger_create :: "db \<Rightarrow> ledger_entry \<Rightarrow> db \<times> (errmsg + ledger_entry)" where
  "ledger_create s e =
     (case ledger_validate e of
        Some m \<Rightarrow> (s, Inl m)
      | None \<Rightarrow>
          (let e' = e\<lparr>le_metadata := filter (\<lambda>(k, v). k \<in> set ledger_metadata_paths) (le_metadata e)\<rparr>
           in (s\<lparr>ledger := ledger s @ [e']\<rparr>, Inr e')))"

text \<open>\<open>User.findByIdAndUpdate(userId, { totalXP: balanceAfter })\<close>: no document, no change.\<close>

definition user_set_totalXP :: "db \<Rightarrow> oid \<Rightarrow> int \<Rightarrow> db" where
  "user_set_totalXP s uid b =
     (case users s uid of
        None \<Rightarrow> s
      | Some u \<Rightarrow> s\<lparr>users := (users s)(uid \<mapsto> u\<lparr>totalXP := b\<rparr>)\<rparr>)"

text \<open>\<open>xpLedgerSchema.statics.addXP\<close>, run without interruption.\<close>

definition addXP ::
  "db \<Rightarrow> oid \<Rightarrow> int \<Rightarrow> string \<Rightarrow> string \<Rightarrow> (string \<times> oid) list \<Rightarrow> oid option
     \<Rightarrow> db \<times> (errmsg + ledger_entry)" where
  "addXP s uid delta rsn descr md eid =
     (case users s uid of
        None \<Rightarrow> (s, Inl ''User not found'')
      | Some u \<Rightarrow>
          (let b = totalXP u + delta in
           if b < 0 then (s, Inl ''Insufficient XP balance'')
           else
             (case ledger_create s
                     \<lparr>le_userId = uid, le_eventId = eid, deltaXP = delta, balanceAfter = b,
                      reason = rsn, description = descr, le_metadata = md\<rparr> of
                (s1, Inl m) \<Rightarrow> (s1, Inl m)
              | (s1, Inr entry) \<Rightarrow> (user_set_totalXP s1 uid b, Inr entry))))"

section \<open>XPRule.js\<close>

text \<open>
  The \<open>actionType\<close> path of \<open>xpRuleSchema\<close> has \<open>trim: true\<close> and
  \<open>lowercase: true\<close>. Mongoose runs these setters on a value that is saved under the
  path and on a value that a query filter compares with it.
\<close>

definition actionType_setters :: "string \<Rightarrow> string" where
  "actionType_setters a = toLowerCase (trim a)"

text \<open>\<open>xpRuleSchema.statics.getRuleByAction\<close>: \<open>findOne({ actionType, isActive: true })\<close>.\<close>

definition getRuleByAction :: "db \<Rightarrow> string \<Rightarrow> xp_rule option" where
  "getRuleByAction s a =
     find (\<lambda>r. actionType r = actionType_setters a \<and> isActive r) (rules s)"

record validation =
  valid :: bool
  vd_reason :: "string option"
  vd_rule :: "xp_rule option"

definition invalid :: "string \<Rightarrow> validation" where
  "invalid r = \<lparr>valid = False, vd_reason = Some r, vd_rule = None\<rparr>"

text \<open>\<open>xs.includes(v)\<close> for a possibly absent \<open>v\<close>: an absent value is in no list.\<close>

definition array_includes :: "'a list \<Rightarrow> 'a option \<Rightarrow> bool" where
  "array_includes xs v = (case v of None \<Rightarrow> False | Some x \<Rightarrow> x \<in> set xs)"

text \<open>The operand of \<open>parseFloat\<close>; an absent one prints as \<open>undefined\<close>.\<close>

definition str_of :: "string option \<Rightarrow> string" where
  "str_of v = (case v of None \<Rightarrow> ''undefined'' | Some s \<Rightarrow> s)"

text \<open>\<open>xpRuleSchema.statics.validateEvent\<close>.\<close>

definition validateEvent :: "db \<Rightarrow> string \<Rightarrow> metadata \<Rightarrow> validation" where
  "validateEvent s a md =
     (case getRuleByAction s a of
        None \<Rightarrow> invalid ''No active rule found for this action''
      | Some rule \<Rightarrow>
          if (validChains rule \<noteq> [] \<and> truthy_num (chainId md))
             \<and> \<not> array_includes (validChains rule) (chainId md)
          then invalid ''Invalid chain ID''
          else if (validProtocols rule \<noteq> [] \<and> truthy_str (protocol md))
                  \<and> \<not> array_includes (validProtocols rule) (protocol md)
          then invalid ''Invalid protocol''
          else if (truthy_str (minAmount rule) \<and> truthy_str (amount md))
                  \<and> js_less (parseFloat (str_of (amount md))) (parseFloat (str_of (minAmount rule)))
          then invalid (''Minimum amount is '' @ str_of (minAmount rule))
          else \<lparr>valid = True, vd_reason = None, vd_rule = Some rule\<rparr>)"

record cooldown_check =
  canEarn :: bool
  cd_reason :: "string option"
  nextAvailableAt :: "int option"

text \<open>
  \<open>Event.findOne({...}).sort({ occurredAt: -1 })\<close>: of the documents that match, one
  with the greatest \<open>occurredAt\<close>.
\<close>

fun most_recent :: "event list \<Rightarrow> event option" where
  "most_recent [] = None"
| "most_recent (e # es) =
     (case most_recent es of
        None \<Rightarrow> Some e
      | Some e' \<Rightarrow> if occurredAt e < occurredAt e' then Some e' else Some e)"

text \<open>
  The filter of both event queries: the user's events of the action type with status
  \<open>verified\<close> or \<open>processed\<close>, not older than \<open>since\<close>.
\<close>

definition successful :: "oid \<Rightarrow> string \<Rightarrow> event \<Rightarrow> bool" where
  "successful uid a e =
     (ev_userId e = uid \<and> ev_type e = a \<and> (status e = Verified \<or> status e = Processed))"

definition earned :: "oid \<Rightarrow> string \<Rightarrow> int \<Rightarrow> event \<Rightarrow> bool" where
  "earned uid a since e = (successful uid a e \<and> since \<le> occurredAt e)"

text \<open>\<open>Math.ceil(a / b)\<close> for integers \<open>a\<close> and \<open>b > 0\<close>.\<close>

definition ceil_div :: "int \<Rightarrow> int \<Rightarrow> int" where
  "ceil_div a b = - ((- a) div b)"

text \<open>\<open>xpRuleSchema.methods.canUserEarnXP\<close>; times are milliseconds since the epoch.\<close>

definition canUserEarnXP :: "env \<Rightarrow> db \<Rightarrow> xp_rule \<Rightarrow> oid \<Rightarrow> cooldown_check" where
  "canUserEarnXP en s rule uid =
     (if cooldownMinutes rule = 0 then \<lparr>canEarn = True, cd_reason = None, nextAvailableAt = None\<rparr>
      else
        (let cooldownMs = cooldownMinutes rule * 60 * 1000;
             cutoffTime = now en - cooldownMs
         in case most_recent (filter (earned uid (actionType rule) cutoffTime) (events s)) of
              Some recentEvent \<Rightarrow>
                (let remainingMs = cooldownMs - (now en - occurredAt recentEvent);
                     remainingMinutes = ceil_div remainingMs 60000
                 in \<lparr>canEarn = False,
                     cd_reason = Some (''Cooldown active. Try again in '' @ show_int remainingMinutes
                                       @ '' minutes.''),
                     nextAvailableAt = Some (occurredAt recentEvent + cooldownMs)\<rparr>)
            | None \<Rightarrow> \<lparr>canEarn = True, cd_reason = None, nextAvailableAt = None\<rparr>))"

record limit_check =
  withinLimit :: bool
  lc_reason :: "string option"
  currentCount :: "int option"
  remaining :: "int option"

text \<open>\<open>xpRuleSchema.methods.checkDailyLimit\<close>; \<open>startOfDay\<close> is local midnight.\<close>

definition checkDailyLimit :: "env \<Rightarrow> db \<Rightarrow> xp_rule \<Rightarrow> oid \<Rightarrow> limit_check" where
  "checkDailyLimit en s rule uid =
     (if \<not> truthy_num (dailyLimit rule)
      then \<lparr>withinLimit = True, lc_reason = None, currentCount = None, remaining = None\<rparr>
      else
        (let limit = (case dailyLimit rule of Some l \<Rightarrow> l | None \<Rightarrow> 0);
             todayCount = int (length (filter (earned uid (actionType rule) (startOfDay en)) (events s)))
         in if limit \<le> todayCount
            then \<lparr>withinLimit = False,
                  lc_reason = Some (''Daily limit of '' @ show_int limit @ '' reached''),
                  currentCount = Some todayCount, remaining = None\<rparr>
            else \<lparr>withinLimit = True, lc_reason = None, currentCount = Some todayCount,
                  remaining = Some (limit - todayCount)\<rparr>))"

section \<open>Event.js\<close>

text \<open>
  Modelled from the spec: \<open>Event.createEvent\<close>, \<open>markProcessed\<close>, \<open>markFailed\<close> and
  \<open>markVerified\<close> of the Event model, whose file is not among the sources. The spec:
  an event has a deduplication key, explicit or derived; the pair (user, dedup key) is
  unique, enforced by a uniqueness constraint of the storage layer, and a second
  submission with the same key is rejected as duplicate; an event is created with
  status \<open>recorded\<close> and moves to \<open>verified\<close>, \<open>processed\<close> or \<open>failed\<close> (with the
  reason). The rejection is the storage layer's duplicate-key error; an event is
  stamped with the time of its creation.
\<close>

definition duplicate_key_error :: errmsg where
  "duplicate_key_error = ''E11000 duplicate key error collection: events index: userId_1_dedupKey_1''"

definition fresh_event_id :: "db \<Rightarrow> oid" where
  "fresh_event_id s = fold (\<lambda>e n. max (Suc (ev_id e)) n) (events s) 0"

definition has_event :: "db \<Rightarrow> oid \<Rightarrow> string \<Rightarrow> bool" where
  "has_event s uid k = (\<exists>e \<in> set (events s). ev_userId e = uid \<and> dedupKey e = k)"

definition createEvent ::
  "env \<Rightarrow> db \<Rightarrow> oid \<Rightarrow> string \<Rightarrow> metadata \<Rightarrow> string option \<Rightarrow> db \<times> (errmsg + event)" where
  "createEvent en s uid ty md key =
     (let k = (case key of Some k \<Rightarrow> k | None \<Rightarrow> deriveDedupKey en uid ty md) in
      if has_event s uid k then (s, Inl duplicate_key_error)
      else
        (let e = \<lparr>ev_id = fresh_event_id s, ev_userId = uid, ev_type = ty, ev_metadata = md,
                   dedupKey = k, status = Recorded, occurredAt = now en, failureReason = None\<rparr>
         in (s\<lparr>events := events s @ [e]\<rparr>, Inr e)))"

definition update_event :: "db \<Rightarrow> oid \<Rightarrow> (event \<Rightarrow> event) \<Rightarrow> db" where
  "update_event s i f = s\<lparr>events := map (\<lambda>e. if ev_id e = i then f e else e) (events s)\<rparr>"

definition markProcessed :: "db \<Rightarrow> oid \<Rightarrow> db" where
  "markProcessed s i = update_event s i (\<lambda>e. e\<lparr>status := Processed\<rparr>)"

definition markVerified :: "db \<Rightarrow> oid \<Rightarrow> db" where
  "markVerified s i = update_event s i (\<lambda>e. e\<lparr>status := Verified\<rparr>)"

definition markFailed :: "db \<Rightarrow> oid \<Rightarrow> string option \<Rightarrow> db" where
  "markFailed s i r = update_event s i (\<lambda>e. e\<lparr>status := Failed, failureReason := r\<rparr>)"

section \<open>contractRegistry.js\<close>

text \<open>\<open>this.contracts[key]\<close>: the address under the key, if there is one.\<close>

definition contract_at :: "env \<Rightarrow> string \<Rightarrow> string option" where
  "contract_at en key = (case map_of (contracts en) key of Some (Some a) \<Rightarrow> Some a | _ \<Rightarrow> None)"

definition getFaucet :: "env \<Rightarrow> string option" where
  "getFaucet en = contract_at en ''faucet''"

definition getVault :: "env \<Rightarrow> string \<Rightarrow> string option" where
  "getVault en token = contract_at en (''vault'' @ token)"

definition getStrategy :: "env \<Rightarrow> string \<Rightarrow> string option" where
  "getStrategy en token = contract_at en (''strategy'' @ token)"

definition isNuviaContract :: "env \<Rightarrow> string option \<Rightarrow> bool" where
  "isNuviaContract en address =
     (if \<not> truthy_str address then False
      else
        (let normalizedAddress = toLowerCase (str_of address);
             allContracts = map (\<lambda>(key, addr). map_option toLowerCase addr) (contracts en)
         in Some normalizedAddress \<in> set allContracts))"

definition getExpectedContract :: "env \<Rightarrow> string \<Rightarrow> metadata \<Rightarrow> string option" where
  "getExpectedContract en eventType md =
     (if eventType = ''claim_faucet'' then getFaucet en
      else if eventType = ''deposit'' \<or> eventType = ''withdraw'' then
        (if truthy_str (tokenSymbol md) then getVault en (str_of (tokenSymbol md)) else None)
      else if eventType = ''supply'' then
        (if truthy_str (tokenSymbol md) then getStrategy en (str_of (tokenSymbol md)) else None)
      else None)"

section \<open>web3.service.js\<close>

record verification =
  verified :: bool
  vf_reason :: "string option"
  vf_receipt :: "receipt option"

definition unverified :: "string \<Rightarrow> verification" where
  "unverified r = \<lparr>verified = False, vf_reason = Some r, vf_receipt = None\<rparr>"

text \<open>
  \<open>Web3Service.verifyTransaction\<close>. \<open>getProvider\<close> throws for a chain without a
  provider and the provider may throw; both are caught and become the reason.
\<close>

definition verifyTransaction ::
  "env \<Rightarrow> string option \<Rightarrow> int option \<Rightarrow> string option \<Rightarrow> verification" where
  "verifyTransaction en txh cid expectedContract =
     (case (case cid of None \<Rightarrow> None | Some c \<Rightarrow> providers en c) of
        None \<Rightarrow>
          unverified (''No provider configured for chain ID: ''
                      @ (case cid of None \<Rightarrow> ''undefined'' | Some c \<Rightarrow> show_int c))
      | Some getTransactionReceipt \<Rightarrow>
          (case getTransactionReceipt txh of
             Inl m \<Rightarrow> unverified m
           | Inr None \<Rightarrow> unverified ''Transaction not found or not confirmed''
           | Inr (Some rc) \<Rightarrow>
               if rc_status rc \<noteq> 1 then unverified ''Transaction failed''
               else if truthy_str expectedContract
                       \<and> map_option toLowerCase (rc_to rc) \<noteq> Some (toLowerCase (str_of expectedContract))
               then unverified ''Transaction not sent to expected contract''
               else \<lparr>verified = True, vf_reason = None, vf_receipt = Some rc\<rparr>))"

section \<open>xp.service.js\<close>

text \<open>\<open>verification.receipt?.to\<close>.\<close>

definition receipt_to :: "verification \<Rightarrow> string option" where
  "receipt_to v = (case vf_receipt v of None \<Rightarrow> None | Some rc \<Rightarrow> rc_to rc)"

text \<open>\<open>XPService.verifyOnchainEvent\<close>.\<close>

definition verifyOnchainEvent :: "env \<Rightarrow> metadata \<Rightarrow> verification" where
  "verifyOnchainEvent en md =
     (let expectedContract =
            (if \<not> truthy_str (contractAddress md) \<and> truthy_str (tokenSymbol md)
             then getExpectedContract en
                    (if truthy_str (md_eventType md) then str_of (md_eventType md) else ''deposit'') md
             else contractAddress md);
          verification = verifyTransaction en (txHash md) (chainId md) expectedContract
      in if verified verification \<and> truthy_str (receipt_to verification)
         then (if \<not> isNuviaContract en (receipt_to verification)
               then unverified ''Transaction not sent to a valid Nuvia contract''
               else verification)
         else verification)"

text \<open>
  \<open>XPService.updateQuestProgress\<close>: the whole body runs inside \<open>try\<close>, and the
  \<open>catch\<close> logs the error and does not throw. The quest models are not among the
  sources: \<open>questFanout\<close> says whether the body throws, and the call is recorded.
\<close>

definition updateQuestProgress :: "env \<Rightarrow> db \<Rightarrow> oid \<Rightarrow> string \<Rightarrow> oid \<Rightarrow> db" where
  "updateQuestProgress en s uid ty eid =
     (let s' = s\<lparr>questUpdates := questUpdates s @ [(uid, ty, eid)]\<rparr> in
      case questFanout en uid ty eid of
        None \<Rightarrow> s'
      | Some logged \<Rightarrow> s')"

record pe_result =
  success :: bool
  pe_event :: "oid option"
  xpAwarded :: int
  message :: string
  pe_nextAvailableAt :: "int option"

definition rejected :: "oid \<Rightarrow> string \<Rightarrow> int option \<Rightarrow> pe_result" where
  "rejected i m nxt =
     \<lparr>success = False, pe_event = Some i, xpAwarded = 0, message = m, pe_nextAvailableAt = nxt\<rparr>"

text \<open>The body of the \<open>try\<close> block of \<open>XPService.processEvent\<close>.\<close>

definition processEvent_try ::
  "env \<Rightarrow> db \<Rightarrow> oid \<Rightarrow> string \<Rightarrow> metadata \<Rightarrow> string option \<Rightarrow> db \<times> (errmsg + pe_result)" where
  "processEvent_try en s uid eventType md key =
     (case createEvent en s uid eventType md key of
        (s0, Inl err) \<Rightarrow> (s0, Inl err)
      | (s1, Inr ev) \<Rightarrow>
          (case getRuleByAction s1 eventType of
             None \<Rightarrow>
               (markProcessed s1 (ev_id ev),
                Inr \<lparr>success = True, pe_event = Some (ev_id ev), xpAwarded = 0,
                     message = ''Event recorded but no XP rule configured'',
                     pe_nextAvailableAt = None\<rparr>)
           | Some rule \<Rightarrow>
               (let validation = validateEvent s1 eventType md in
                if \<not> valid validation then
                  (markFailed s1 (ev_id ev) (vd_reason validation),
                   Inr (rejected (ev_id ev) (str_of (vd_reason validation)) None))
                else
                  (let cooldownCheck = canUserEarnXP en s1 rule uid in
                   if \<not> canEarn cooldownCheck then
                     (markFailed s1 (ev_id ev) (cd_reason cooldownCheck),
                      Inr (rejected (ev_id ev) (str_of (cd_reason cooldownCheck))
                             (nextAvailableAt cooldownCheck)))
                   else
                     (let limitCheck = checkDailyLimit en s1 rule uid in
                      if \<not> withinLimit limitCheck then
                        (markFailed s1 (ev_id ev) (lc_reason limitCheck),
                         Inr (rejected (ev_id ev) (str_of (lc_reason limitCheck)) None))
                      else
                        (let onchain = truthy_str (txHash md) \<and> truthy_num (chainId md);
                             verification = verifyOnchainEvent en md
                         in if onchain \<and> \<not> verified verification then
                              (markFailed s1 (ev_id ev) (vf_reason verification),
                               Inr (rejected (ev_id ev)
                                      (''Onchain verification failed: '' @ str_of (vf_reason verification))
                                      None))
                            else
                              (let s2 = (if onchain then markVerified s1 (ev_id ev) else s1);
                                   xp = xpAmount rule
                               in case addXP s2 uid xp eventType (''XP from '' @ eventType)
                                         [(''eventId'', ev_id ev)] (Some (ev_id ev)) of
                                    (s3, Inl err) \<Rightarrow> (s3, Inl err)
                                  | (s3, Inr entry) \<Rightarrow>
                                      (updateQuestProgress en (markProcessed s3 (ev_id ev)) uid eventType
                                         (ev_id ev),
                                       Inr \<lparr>success = True, pe_event = Some (ev_id ev), xpAwarded = xp,
                                            message = ''Successfully earned '' @ show_int xp @ '' XP'',
                                            pe_nextAvailableAt = None\<rparr>))))))))"

definition duplicate_outcome :: pe_result where
  "duplicate_outcome =
     \<lparr>success = False, pe_event = None, xpAwarded = 0,
      message = ''Event already processed (duplicate)'', pe_nextAvailableAt = None\<rparr>"

text \<open>
  \<open>XPService.processEvent\<close>: the \<open>catch\<close> block returns the duplicate outcome for an
  error whose message includes \<open>duplicate\<close> and throws every other error again.
  Nothing the \<open>try\<close> block wrote is undone.
\<close>

definition processEvent ::
  "env \<Rightarrow> db \<Rightarrow> oid \<Rightarrow> string \<Rightarrow> metadata \<Rightarrow> string option \<Rightarrow> db \<times> (errmsg + pe_result)" where
  "processEvent en s uid eventType md key =
     (case processEvent_try en s uid eventType md key of
        (s', Inl err) \<Rightarrow>
          if str_includes err ''duplicate'' then (s', Inr duplicate_outcome) else (s', Inl err)
      | (s', Inr r) \<Rightarrow> (s', Inr r))"

section \<open>Referral.js\<close>

definition fresh_referral_id :: "db \<Rightarrow> oid" where
  "fresh_referral_id s = fold (\<lambda>r n. max (Suc (rf_id r)) n) (referrals s) 0"

text \<open>
  \<open>referralSchema.statics.createReferral\<close>. The error thrown for an invitee who has a
  referral carries no \<open>code\<close>, so the \<open>catch\<close> throws it again as it is. The schema
  upper-cases the code, which is required.
\<close>

definition createReferral ::
  "db \<Rightarrow> oid \<Rightarrow> oid \<Rightarrow> string \<Rightarrow> db \<times> (errmsg + referral)" where
  "createReferral s inviter invitee code =
     (case find (\<lambda>r. inviteeUserId r = invitee) (referrals s) of
        Some existing \<Rightarrow> (s, Inl ''User has already been referred'')
      | None \<Rightarrow>
          if code = [] then
            (s, Inl ''Referral validation failed: referralCode: Path `referralCode` is required.'')
          else
            (let r = \<lparr>rf_id = fresh_referral_id s, inviterUserId = inviter, inviteeUserId = invitee,
                       referralCode = toUpperCase code, rf_status = Pending, firstLogin = False,
                       firstOnchainAction = False, minXPReached = False, minXPThreshold = 100,
                       rewardInviterXP = 0, rewardInviteeXP = 0, rewardedAt = None\<rparr>
             in (s\<lparr>referrals := referrals s @ [r]\<rparr>, Inr r)))"

text \<open>\<open>this.save()\<close>: the stored document with this id becomes the document in memory.\<close>

definition save_referral :: "db \<Rightarrow> referral \<Rightarrow> db" where
  "save_referral s r = s\<lparr>referrals := map (\<lambda>x. if rf_id x = rf_id r then r else x) (referrals s)\<rparr>"

text \<open>
  \<open>referralSchema.methods.distributeRewards\<close> on the document \<open>r\<close>; it returns the
  document as it is afterwards (unchanged when an error is thrown).
\<close>

definition distributeRewards ::
  "env \<Rightarrow> db \<Rightarrow> referral \<Rightarrow> int \<Rightarrow> int \<Rightarrow> db \<times> (errmsg + referral)" where
  "distributeRewards en s r inviterXP inviteeXP =
     (if rf_status r \<noteq> RVerified
      then (s, Inl ''Referral must be verified before distributing rewards'')
      else
        (case addXP s (inviterUserId r) inviterXP ''referral_reward_inviter''
                ''Referral reward for inviting user'' [(''referralId'', rf_id r)] None of
           (s1, Inl err) \<Rightarrow> (s1, Inl err)
         | (s1, Inr e1) \<Rightarrow>
             (case addXP s1 (inviteeUserId r) inviteeXP ''referral_reward_invitee''
                     ''Referral reward for joining'' [(''referralId'', rf_id r)] None of
                (s2, Inl err) \<Rightarrow> (s2, Inl err)
              | (s2, Inr e2) \<Rightarrow>
                  (let r' = r\<lparr>rewardInviterXP := inviterXP, rewardInviteeXP := inviteeXP,
                               rf_status := Rewarded, rewardedAt := Some (now en)\<rparr>
                   in (save_referral s2 r', Inr r')))))"

section \<open>Overlapping calls of addXP\<close>

text \<open>
  An \<open>async\<close> function gives way to other requests at each \<open>await\<close>. \<open>addXP\<close>
  awaits three storage calls: \<open>User.findById\<close>, \<open>this.create\<close> and
  \<open>User.findByIdAndUpdate\<close>. Each storage call is atomic; between two of them any
  other request may run. A call of \<open>addXP\<close> in progress is its arguments and the point
  it has reached, with the locals it holds there.
\<close>

record addXP_call =
  c_userId :: oid
  c_deltaXP :: int
  c_reason :: string
  c_description :: string
  c_metadata :: "(string \<times> oid) list"
  c_eventId :: "oid option"

datatype addXP_pc =
    Start
  | HaveBalance int
  | Created int ledger_entry
  | Returned ledger_entry
  | Threw errmsg

fun addXP_step :: "addXP_call \<Rightarrow> db \<Rightarrow> addXP_pc \<Rightarrow> db \<times> addXP_pc" where
  "addXP_step c s Start =
     (case users s (c_userId c) of
        None \<Rightarrow> (s, Threw ''User not found'')
      | Some u \<Rightarrow>
          (let b = totalXP u + c_deltaXP c in
           if b < 0 then (s, Threw ''Insufficient XP balance'') else (s, HaveBalance b)))"
| "addXP_step c s (HaveBalance b) =
     (case ledger_create s
             \<lparr>le_userId = c_userId c, le_eventId = c_eventId c, deltaXP = c_deltaXP c,
              balanceAfter = b, reason = c_reason c, description = c_description c,
              le_metadata = c_metadata c\<rparr> of
        (s1, Inl m) \<Rightarrow> (s1, Threw m)
      | (s1, Inr entry) \<Rightarrow> (s1, Created b entry))"
| "addXP_step c s (Created b entry) = (user_set_totalXP s (c_userId c) b, Returned entry)"
| "addXP_step c s (Returned entry) = (s, Returned entry)"
| "addXP_step c s (Threw m) = (s, Threw m)"

text \<open>
  A schedule names, step by step, the call that runs its next storage call. Calls that
  have returned or thrown stay as they are.
\<close>

fun run_schedule :: "nat list \<Rightarrow> db \<times> (addXP_call \<times> addXP_pc) list \<Rightarrow> db \<times> (addXP_call \<times> addXP_pc) list" where
  "run_schedule [] st = st"
| "run_schedule (i # sched) (s, tasks) =
     (if i < length tasks then
        (case tasks ! i of
           (c, pc) \<Rightarrow>
             (case addXP_step c s pc of
                (s', pc') \<Rightarrow> run_schedule sched (s', tasks[i := (c, pc')])))
      else run_schedule sched (s, tasks))"

definition has_returned :: "addXP_call \<times> addXP_pc \<Rightarrow> bool" where
  "has_returned t = (case snd t of Returned e \<Rightarrow> True | _ \<Rightarrow> False)"

text \<open>\<open>n\<close> calls that award one point to the same user, none of them started.\<close>

definition award_one :: "oid \<Rightarrow> addXP_call" where
  "award_one uid =
     \<lparr>c_userId = uid, c_deltaXP = 1, c_reason = ''other'', c_description = ''award'',
      c_metadata = [], c_eventId = None\<rparr>"

definition awards :: "nat \<Rightarrow> oid \<Rightarrow> (addXP_call \<times> addXP_pc) list" where
  "awards n uid = replicate n (award_one uid, Start)"

text \<open>One after another: each call runs its three storage calls before the next starts.\<close>

definition serial :: "nat \<Rightarrow> nat list" where
  "serial n = concat (map (\<lambda>i. [i, i, i]) [0..<n])"

text \<open>All calls read, then all calls append, then all calls write.\<close>

definition lockstep :: "nat \<Rightarrow> nat list" where
  "lockstep n = [0..<n] @ [0..<n] @ [0..<n]"

definition balance_of :: "db \<Rightarrow> oid \<Rightarrow> int option" where
  "balance_of s uid = map_option totalXP (users s uid)"

section \<open>Operations and the ledger invariant\<close>

text \<open>
  The \<open>walletAddress\<close> path of \<open>userSchema\<close> has \<open>lowercase: true\<close>,
  \<open>trim: true\<close> and \<open>unique: true\<close>.
\<close>

definition walletAddress_setters :: "string \<Rightarrow> string" where
  "walletAddress_setters a = toLowerCase (trim a)"

text \<open>
  \<open>User.create\<close> in the authentication controller: a new user has a fresh ObjectId
  and the default \<open>totalXP\<close> of 0. Nothing is inserted under an address that a user
  has.
\<close>

definition createUser :: "db \<Rightarrow> oid \<Rightarrow> string \<Rightarrow> db" where
  "createUser s uid wallet =
     (let w = walletAddress_setters wallet in
      if uid \<in> dom (users s) \<or> w \<in> dom (walletIndex s) then s
      else s\<lparr>users := (users s)(uid \<mapsto> \<lparr>totalXP = 0\<rparr>), walletIndex := (walletIndex s)(w \<mapsto> uid)\<rparr>)"

text \<open>
  \<open>userSchema.statics.incrementXP\<close>: one \<open>findOneAndUpdate\<close> with
  \<open>$inc: { totalXP: deltaXP }\<close> on the user with the address; it returns the updated
  document, or \<open>null\<close> when there is none. It writes no ledger entry. No source calls
  it.
\<close>

definition incrementXP :: "db \<Rightarrow> string \<Rightarrow> int \<Rightarrow> db \<times> user option" where
  "incrementXP s wallet delta =
     (case walletIndex s (walletAddress_setters (toLowerCase wallet)) of
        None \<Rightarrow> (s, None)
      | Some uid \<Rightarrow>
          (case users s uid of
             None \<Rightarrow> (s, None)
           | Some u \<Rightarrow>
               (s\<lparr>users := (users s)(uid \<mapsto> u\<lparr>totalXP := totalXP u + delta\<rparr>)\<rparr>,
                Some (u\<lparr>totalXP := totalXP u + delta\<rparr>))))"

text \<open>
  The operations that write users, ledger entries, events and referrals, each run to
  its end before the next one starts.
\<close>

datatype op =
    CreateUser oid string
  | IncrementXP string int
  | AddXP oid int string string "(string \<times> oid) list" "oid option"
  | ProcessEvent env oid string metadata "string option"
  | CreateReferral oid oid string
  | DistributeRewards env referral int int

fun exec_op :: "db \<Rightarrow> op \<Rightarrow> db" where
  "exec_op s (CreateUser uid wallet) = createUser s uid wallet"
| "exec_op s (IncrementXP wallet delta) = fst (incrementXP s wallet delta)"
| "exec_op s (AddXP uid delta rsn descr md eid) = fst (addXP s uid delta rsn descr md eid)"
| "exec_op s (ProcessEvent en uid ty md key) = fst (processEvent en s uid ty md key)"
| "exec_op s (CreateReferral inviter invitee code) = fst (createReferral s inviter invitee code)"
| "exec_op s (DistributeRewards en r inviterXP inviteeXP) = fst (distributeRewards en s r inviterXP inviteeXP)"

definition exec_ops :: "db \<Rightarrow> op list \<Rightarrow> db" where
  "exec_ops s ops = foldl exec_op s ops"

text \<open>The operations that change a balance only through \<open>addXP\<close>: all but \<open>incrementXP\<close>.\<close>

fun through_ledger :: "op \<Rightarrow> bool" where
  "through_ledger (IncrementXP wallet delta) = False"
| "through_ledger x = True"

text \<open>
  The ledger entries of a user in creation order; the running sums of their
  \<open>deltaXP\<close>; the invariant of the ledger; and the fact that every entry belongs to
  a user of the collection (an ObjectId is never used twice).
\<close>

definition entries_of :: "db \<Rightarrow> oid \<Rightarrow> ledger_entry list" where
  "entries_of s uid = filter (\<lambda>e. le_userId e = uid) (ledger s)"

definition running_sums_ok :: "ledger_entry list \<Rightarrow> bool" where
  "running_sums_ok es =
     (\<forall>i < length es. balanceAfter (es ! i) = sum_list (map deltaXP (take (Suc i) es)))"

definition ledger_consistent :: "db \<Rightarrow> bool" where
  "ledger_consistent s =
     (\<forall>uid u. users s uid = Some u \<longrightarrow>
        totalXP u = sum_list (map deltaXP (entries_of s uid)) \<and> running_sums_ok (entries_of s uid))"

definition entries_owned :: "db \<Rightarrow> bool" where
  "entries_owned s = (\<forall>e \<in> set (ledger s). le_userId e \<in> dom (users s))"

definition xp_inv :: "db \<Rightarrow> bool" where
  "xp_inv s = (ledger_consistent s \<and> entries_owned s)"

text \<open>The value \<open>addXP\<close> has after its third storage call.\<close>

definition outcome :: "addXP_pc \<Rightarrow> (errmsg + ledger_entry) option" where
  "outcome pc = (case pc of Returned e \<Rightarrow> Some (Inr e) | Threw m \<Rightarrow> Some (Inl m) | _ \<Rightarrow> None)"

section \<open>Example data\<close>

definition ledger_example :: db where
  "ledger_example =
     empty_db\<lparr>users := Map.empty(7 \<mapsto> \<lparr>totalXP = 150\<rparr>, 8 \<mapsto> \<lparr>totalXP = 0\<rparr>),
              ledger :=
                [\<lparr>le_userId = 7, le_eventId = None, deltaXP = 100, balanceAfter = 100,
                  reason = ''deposit'', description = ''XP from deposit'', le_metadata = []\<rparr>,
                 \<lparr>le_userId = 7, le_eventId = None, deltaXP = 50, balanceAfter = 150,
                  reason = ''connect_wallet'', description = ''XP from connect_wallet'', le_metadata = []\<rparr>]\<rparr>"

definition deposit_rule :: xp_rule where
  "deposit_rule =
     \<lparr>actionType = ''deposit'', xpAmount = 100, dailyLimit = None, minAmount = Some ''10'',
      validChains = [84532], validProtocols = [], cooldownMinutes = 0, isActive = True\<rparr>"

definition connect_rule :: xp_rule where
  "connect_rule =
     \<lparr>actionType = ''connect_wallet'', xpAmount = 50, dailyLimit = None, minAmount = None,
      validChains = [], validProtocols = [], cooldownMinutes = 0, isActive = True\<rparr>"

definition faucet_rule :: xp_rule where
  "faucet_rule =
     \<lparr>actionType = ''claim_faucet'', xpAmount = 25, dailyLimit = Some 1, minAmount = None,
      validChains = [], validProtocols = [], cooldownMinutes = 60, isActive = True\<rparr>"

definition no_metadata :: metadata where
  "no_metadata =
     \<lparr>txHash = None, chainId = None, contractAddress = None, tokenSymbol = None,
      md_eventType = None, protocol = None, amount = None\<rparr>"

text \<open>
  A chain with one confirmed, successful transaction, sent to an address that is not in
  the registry.
\<close>

definition stray_receipt :: receipt where
  "stray_receipt =
     \<lparr>rc_status = 1, rc_to = Some ''0x00000000000000000000000000000000DeaDBeef'',
      rc_from = ''0x1111111111111111111111111111111111111111'', rc_blockNumber = 1200\<rparr>"

definition example_env :: env where
  "example_env =
     \<lparr>now = 1700000000000, startOfDay = 1699920000000,
      providers = Map.empty(84532 \<mapsto> (\<lambda>h. if h = Some ''0xabc1'' then Inr (Some stray_receipt) else Inr None)),
      contracts = [(''faucet'', Some ''0xFa0cE7000000000000000000000000000000AAaa''),
                   (''vaultUSDC'', Some ''0x7a017000000000000000000000000000000BBbb0'')],
      deriveDedupKey = (\<lambda>uid ty md. ''derived''),
      questFanout = (\<lambda>uid ty eid. None)\<rparr>"

definition stray_md :: metadata where
  "stray_md = no_metadata\<lparr>txHash := Some ''0xabc1'', chainId := Some 84532\<rparr>"

definition example_db :: db where
  "example_db =
     empty_db\<lparr>users := Map.empty(7 \<mapsto> \<lparr>totalXP = 0\<rparr>),
              rules := [connect_rule, deposit_rule, faucet_rule]\<rparr>"

text \<open>A rule for an action type that is not a reason of the ledger.\<close>

definition report_rule :: xp_rule where
  "report_rule =
     \<lparr>actionType = ''report_duplicate'', xpAmount = 10, dailyLimit = None, minAmount = None,
      validChains = [], validProtocols = [], cooldownMinutes = 0, isActive = True\<rparr>"

text \<open>A quest tracker whose storage rejects a progress row as a duplicate.\<close>

definition quest_collision :: errmsg where
  "quest_collision = ''E11000 duplicate key error collection: questprogresses index: userId_1_questId_1_periodStart_1''"

text \<open>A verified referral of user 2 by user 1.\<close>

definition verified_referral :: referral where
  "verified_referral =
     \<lparr>rf_id = 0, inviterUserId = 1, inviteeUserId = 2, referralCode = ''NUV-ABC123'',
      rf_status = RVerified, firstLogin = True, firstOnchainAction = True, minXPReached = True,
      minXPThreshold = 100, rewardInviterXP = 0, rewardInviteeXP = 0, rewardedAt = None\<rparr>"

definition referral_db :: db where
  "referral_db =
     empty_db\<lparr>users := Map.empty(1 \<mapsto> \<lparr>totalXP = 40\<rparr>, 2 \<mapsto> \<lparr>totalXP = 120\<rparr>),
              referrals := [verified_referral]\<rparr>"

text \<open>The same referral when the invitee's user document is gone.\<close>

definition referral_db_no_invitee :: db where
  "referral_db_no_invitee =
     empty_db\<lparr>users := Map.empty(1 \<mapsto> \<lparr>totalXP = 40\<rparr>), referrals := [verified_referral]\<rparr>"

text \<open>A faucet claim processed at time 1000000 and a failed one ten minutes later.\<close>

definition claim_processed :: event where
  "claim_processed =
     \<lparr>ev_id = 0, ev_userId = 7, ev_type = ''claim_faucet'', ev_metadata = no_metadata,
      dedupKey = ''a'', status = Processed, occurredAt = 1000000, failureReason = None\<rparr>"

definition claim_failed :: event where
  "claim_failed =
     \<lparr>ev_id = 1, ev_userId = 7, ev_type = ''claim_faucet'', ev_metadata = no_metadata,
      dedupKey = ''b'', status = Failed, occurredAt = 1600000,
      failureReason = Some ''Cooldown active. Try again in 50 minutes.''\<rparr>"

definition ops_example :: "op list" where
  "ops_example =
     [AddXP 7 25 ''other'' ''bonus'' [] None,
      AddXP 7 (- 500) ''penalty'' ''too much'' [] None,
      CreateUser 9 ''0x9999999999999999999999999999999999999999'',
      AddXP 9 5 ''other'' ''welcome'' [] None]"

section \<open>Negative balances are refused\<close>

text \<open>
  C3. When the user's current balance plus \<open>deltaXP\<close> is negative, \<open>addXP\<close> throws
  \<open>Insufficient XP balance\<close> and the database is what it was: no ledger entry, the
  same \<open>totalXP\<close>.
\<close>

theorem addXP_negative_balance_fails:
  assumes "users s uid = Some u" and "totalXP u + delta < 0"
  shows "addXP s uid delta rsn descr md eid = (s, Inl ''Insufficient XP balance'')"
  using assms by (simp add: addXP_def)

theorem addXP_negative_balance_fails_witness:
  "addXP (empty_db\<lparr>users := Map.empty(7 \<mapsto> \<lparr>totalXP = 30\<rparr>)\<rparr>) 7 (- 50) ''penalty'' ''late'' [] None
     = (empty_db\<lparr>users := Map.empty(7 \<mapsto> \<lparr>totalXP = 30\<rparr>)\<rparr>, Inl ''Insufficient XP balance'')"
  using addXP_negative_balance_fails
    [of "empty_db\<lparr>users := Map.empty(7 \<mapsto> \<lparr>totalXP = 30\<rparr>)\<rparr>" 7 "\<lparr>totalXP = 30\<rparr>" "- 50"
        "''penalty''" "''late''" "[]" None]
  by simp

section \<open>Action types of the examples\<close>

text \<open>What the setters of \<open>actionType\<close> make of the action types used below.\<close>

lemma example_action_types [simp]:
  "actionType_setters ''deposit'' = ''deposit''"
  "actionType_setters ''DEPOSIT'' = ''deposit''"
  "actionType_setters '' Deposit '' = ''deposit''"
  "actionType_setters ''connect_wallet'' = ''connect_wallet''"
  "actionType_setters ''claim_faucet'' = ''claim_faucet''"
  "actionType_setters ''swap'' = ''swap''"
  "actionType_setters ''report_duplicate'' = ''report_duplicate''"
  by code_simp+

section \<open>The ledger invariant\<close>

lemma xp_inv_cong:
  assumes "users s' = users s" and "ledger s' = ledger s"
  shows "xp_inv s' = xp_inv s"
  using assms by (simp add: xp_inv_def ledger_consistent_def entries_owned_def entries_of_def)

lemma running_sums_ok_snoc:
  assumes "running_sums_ok es" and "balanceAfter e = sum_list (map deltaXP es) + deltaXP e"
  shows "running_sums_ok (es @ [e])"
  unfolding running_sums_ok_def
proof (intro allI impI)
  fix i assume "i < length (es @ [e])"
  then consider "i < length es" | "i = length es" by fastforce
  then show "balanceAfter ((es @ [e]) ! i) = sum_list (map deltaXP (take (Suc i) (es @ [e])))"
  proof cases
    case 1
    then show ?thesis using assms(1) by (simp add: running_sums_ok_def nth_append)
  next
    case 2
    then show ?thesis using assms(2) by simp
  qed
qed

lemma addXP_cases:
  "(addXP s uid d rsn ds md eid = (s, Inl ''User not found'') \<and> users s uid = None)
   \<or> (\<exists>u. users s uid = Some u \<and> totalXP u + d < 0 \<and> addXP s uid d rsn ds md eid = (s, Inl ''Insufficient XP balance''))
   \<or> (\<exists>m. addXP s uid d rsn ds md eid = (s, Inl m))
   \<or> (\<exists>u e. users s uid = Some u \<and> 0 \<le> totalXP u + d
        \<and> le_userId e = uid \<and> deltaXP e = d \<and> balanceAfter e = totalXP u + d
        \<and> addXP s uid d rsn ds md eid
            = (s\<lparr>ledger := ledger s @ [e], users := (users s)(uid \<mapsto> u\<lparr>totalXP := totalXP u + d\<rparr>)\<rparr>, Inr e))"
  by (auto simp: addXP_def ledger_create_def user_set_totalXP_def Let_def split: option.splits)

lemma addXP_preserves:
  assumes "xp_inv s"
  shows "xp_inv (fst (addXP s uid d rsn ds md eid))"
proof -
  consider (err) m where "addXP s uid d rsn ds md eid = (s, Inl m)"
    | (ok) u e where "users s uid = Some u" "le_userId e = uid" "deltaXP e = d"
        "balanceAfter e = totalXP u + d"
        "addXP s uid d rsn ds md eid
          = (s\<lparr>ledger := ledger s @ [e], users := (users s)(uid \<mapsto> u\<lparr>totalXP := totalXP u + d\<rparr>)\<rparr>, Inr e)"
    using addXP_cases [of s uid d rsn ds md eid] by blast
  then show ?thesis
  proof cases
    case err
    then show ?thesis using assms by simp
  next
    case ok
    let ?s' = "s\<lparr>ledger := ledger s @ [e], users := (users s)(uid \<mapsto> u\<lparr>totalXP := totalXP u + d\<rparr>)\<rparr>"
    have cons: "ledger_consistent s" and own: "entries_owned s"
      using assms by (simp_all add: xp_inv_def)
    have old: "totalXP u = sum_list (map deltaXP (entries_of s uid))" "running_sums_ok (entries_of s uid)"
      using cons ok(1) by (simp_all add: ledger_consistent_def)
    have e_uid: "entries_of ?s' uid = entries_of s uid @ [e]"
      using ok(2) by (simp add: entries_of_def)
    have e_other: "\<And>v. v \<noteq> uid \<Longrightarrow> entries_of ?s' v = entries_of s v"
      using ok(2) by (simp add: entries_of_def)
    have "ledger_consistent ?s'"
      unfolding ledger_consistent_def
    proof (intro allI impI)
      fix v w assume vw: "users ?s' v = Some w"
      show "totalXP w = sum_list (map deltaXP (entries_of ?s' v)) \<and> running_sums_ok (entries_of ?s' v)"
      proof (cases "v = uid")
        case True
        then have w: "w = u\<lparr>totalXP := totalXP u + d\<rparr>" using vw by simp
        have "running_sums_ok (entries_of s uid @ [e])"
          using old ok(3,4) by (intro running_sums_ok_snoc) simp_all
        then show ?thesis using True w old ok(3) e_uid by simp
      next
        case False
        then have "users s v = Some w" using vw by simp
        then show ?thesis using cons False e_other by (simp add: ledger_consistent_def)
      qed
    qed
    moreover have "entries_owned ?s'"
      using own ok(1,2) by (auto simp: entries_owned_def)
    ultimately show ?thesis using ok(5) by (simp add: xp_inv_def)
  qed
qed

lemma createUser_preserves:
  assumes "xp_inv s"
  shows "xp_inv (createUser s uid wallet)"
proof (cases "uid \<in> dom (users s)")
  case True
  then show ?thesis using assms by (simp add: createUser_def Let_def)
next
  case False
  have "entries_of s uid = []"
    using assms False by (auto simp: xp_inv_def entries_owned_def entries_of_def filter_empty_conv)
  then show ?thesis
    using assms False
    by (auto simp: createUser_def Let_def xp_inv_def ledger_consistent_def entries_owned_def
                   entries_of_def running_sums_ok_def)
qed

lemma addXP_preserves':
  assumes "xp_inv s" and "addXP s uid d rsn ds md eid = (s', r)"
  shows "xp_inv s'"
  using addXP_preserves [OF assms(1), of uid d rsn ds md eid] assms(2) by simp

lemma xp_inv_update_event [simp]: "xp_inv (update_event s i f) = xp_inv s"
  by (rule xp_inv_cong) (simp_all add: update_event_def)

lemma xp_inv_mark [simp]:
  "xp_inv (markProcessed s i) = xp_inv s"
  "xp_inv (markVerified s i) = xp_inv s"
  "xp_inv (markFailed s i r) = xp_inv s"
  by (simp_all add: markProcessed_def markVerified_def markFailed_def)

lemma xp_inv_updateQuestProgress [simp]: "xp_inv (updateQuestProgress en s uid ty eid) = xp_inv s"
  by (rule xp_inv_cong) (simp_all add: updateQuestProgress_def Let_def split: option.splits)

lemma createEvent_xp_inv:
  assumes "createEvent en s uid ty md key = (s', r)"
  shows "xp_inv s' = xp_inv s"
  using assms
  by (intro xp_inv_cong) (auto simp: createEvent_def Let_def split: if_splits)

lemma processEvent_try_preserves:
  assumes "xp_inv s"
  shows "xp_inv (fst (processEvent_try en s uid ty md key))"
proof (cases "createEvent en s uid ty md key")
  case (Pair s1 r)
  have s1: "xp_inv s1" using createEvent_xp_inv [OF Pair] assms by simp
  show ?thesis
  proof (cases r)
    case (Inl err)
    then show ?thesis using Pair s1 by (simp add: processEvent_try_def)
  next
    case (Inr ev)
    have step: "addXP s2 uid d rsn ds m eid = (s3, res) \<Longrightarrow> xp_inv s2 \<Longrightarrow> xp_inv s3"
      for s2 d rsn ds m eid s3 res
      by (rule addXP_preserves')
    show ?thesis
      using Pair Inr s1
      by (auto simp: processEvent_try_def Let_def split: option.splits prod.splits sum.splits
               dest: step)
  qed
qed

lemma processEvent_preserves:
  assumes "xp_inv s"
  shows "xp_inv (fst (processEvent en s uid ty md key))"
  using processEvent_try_preserves [OF assms, of en uid ty md key]
  by (auto simp: processEvent_def split: prod.splits sum.splits)

lemma createReferral_preserves:
  assumes "xp_inv s"
  shows "xp_inv (fst (createReferral s inviter invitee code))"
proof -
  have "xp_inv (s\<lparr>referrals := rs\<rparr>) = xp_inv s" for rs
    by (rule xp_inv_cong) simp_all
  then show ?thesis
    using assms by (simp add: createReferral_def Let_def split: option.splits)
qed

lemma distributeRewards_preserves:
  assumes "xp_inv s"
  shows "xp_inv (fst (distributeRewards en s r a b))"
proof -
  have sv: "xp_inv (save_referral s' r') = xp_inv s'" for s' r'
    by (rule xp_inv_cong) (simp_all add: save_referral_def)
  show ?thesis
    using assms sv
    by (auto simp: distributeRewards_def Let_def split: prod.splits sum.splits
             dest: addXP_preserves' [rotated])
qed

lemma exec_op_preserves:
  assumes "xp_inv s" and "through_ledger x"
  shows "xp_inv (exec_op s x)"
  using assms
  by (cases x)
     (simp_all add: createUser_preserves addXP_preserves processEvent_preserves
        createReferral_preserves distributeRewards_preserves)

lemma exec_ops_preserves:
  assumes "xp_inv s" and "list_all through_ledger ops"
  shows "xp_inv (exec_ops s ops)"
  using assms unfolding exec_ops_def
  by (induction ops arbitrary: s) (simp_all add: exec_op_preserves)

text \<open>
  C2, as amended. From a database in which every user's \<open>totalXP\<close> is the sum of the
  \<open>deltaXP\<close> of that user's ledger entries and every entry's \<open>balanceAfter\<close> is the
  running sum up to and including it, every sequence of operations that change balances
  through \<open>addXP\<close> (user creation, \<open>addXP\<close>, \<open>processEvent\<close>, \<open>createReferral\<close>,
  \<open>distributeRewards\<close>), each completed before the next starts, leads to a database
  in which the same holds.
\<close>

theorem ledger_consistency:
  assumes "ledger_consistent s" and "entries_owned s" and "list_all through_ledger ops"
  shows "ledger_consistent (exec_ops s ops)"
  using exec_ops_preserves [of s ops] assms by (simp add: xp_inv_def)

theorem ledger_consistency_witness:
  "ledger_consistent ledger_example \<and> entries_owned ledger_example
   \<and> list_all through_ledger ops_example
   \<and> ledger_consistent (exec_ops ledger_example ops_example)
   \<and> map balanceAfter (ledger (exec_ops ledger_example ops_example)) = [100, 150, 175, 5]
   \<and> balance_of (exec_ops ledger_example ops_example) 7 = Some 175"
proof -
  have c: "ledger_consistent ledger_example"
    by (simp add: ledger_consistent_def ledger_example_def empty_db_def entries_of_def
          running_sums_ok_def less_Suc_eq split: if_splits)
  have o: "entries_owned ledger_example"
    by (simp add: entries_owned_def ledger_example_def empty_db_def)
  have l: "list_all through_ledger ops_example"
    by (simp add: ops_example_def)
  have b: "map balanceAfter (ledger (exec_ops ledger_example ops_example)) = [100, 150, 175, 5]"
    by (simp add: exec_ops_def ops_example_def ledger_example_def empty_db_def addXP_def
          ledger_create_def ledger_validate_def ledger_path_errors_def reason_enum_def
          user_set_totalXP_def createUser_def Let_def)
  have t: "balance_of (exec_ops ledger_example ops_example) 7 = Some 175"
    by (simp add: exec_ops_def ops_example_def ledger_example_def empty_db_def balance_of_def
          addXP_def ledger_create_def ledger_validate_def ledger_path_errors_def reason_enum_def
          user_set_totalXP_def createUser_def Let_def)
  show ?thesis
    using ledger_consistency [OF c o l] c o l b t by simp
qed

text \<open>
  C2 as stated fails when two operations overlap. Two awards of one point to a user
  without points and without entries, each reading the balance before the other writes
  it, both return; the ledger then holds two entries of one point, each with
  \<open>balanceAfter\<close> 1, and \<open>totalXP\<close> is 1.
\<close>

theorem overlapping_breaks_ledger_counterexample:
  "ledger_consistent (empty_db\<lparr>users := Map.empty(7 \<mapsto> \<lparr>totalXP = 0\<rparr>)\<rparr>)
   \<and> list_all has_returned
        (snd (run_schedule (lockstep 2) (empty_db\<lparr>users := Map.empty(7 \<mapsto> \<lparr>totalXP = 0\<rparr>)\<rparr>, awards 2 7)))
   \<and> map deltaXP (entries_of (fst (run_schedule (lockstep 2)
        (empty_db\<lparr>users := Map.empty(7 \<mapsto> \<lparr>totalXP = 0\<rparr>)\<rparr>, awards 2 7))) 7) = [1, 1]
   \<and> map balanceAfter (entries_of (fst (run_schedule (lockstep 2)
        (empty_db\<lparr>users := Map.empty(7 \<mapsto> \<lparr>totalXP = 0\<rparr>)\<rparr>, awards 2 7))) 7) = [1, 1]
   \<and> balance_of (fst (run_schedule (lockstep 2)
        (empty_db\<lparr>users := Map.empty(7 \<mapsto> \<lparr>totalXP = 0\<rparr>)\<rparr>, awards 2 7))) 7 = Some 1
   \<and> \<not> ledger_consistent (fst (run_schedule (lockstep 2)
        (empty_db\<lparr>users := Map.empty(7 \<mapsto> \<lparr>totalXP = 0\<rparr>)\<rparr>, awards 2 7)))"
proof -
  let ?s = "empty_db\<lparr>users := Map.empty(7 \<mapsto> \<lparr>totalXP = 0\<rparr>)\<rparr>"
  let ?r = "run_schedule (lockstep 2) (?s, awards 2 7)"
  have c: "ledger_consistent ?s"
    by (simp add: ledger_consistent_def empty_db_def entries_of_def running_sums_ok_def
          split: if_splits)
  have r: "list_all has_returned (snd ?r)"
    by code_simp
  have d: "map deltaXP (entries_of (fst ?r) 7) = [1, 1]"
    by code_simp
  have a: "map balanceAfter (entries_of (fst ?r) 7) = [1, 1]"
    by code_simp
  have b: "balance_of (fst ?r) 7 = Some 1"
    by code_simp
  have n: "\<not> ledger_consistent (fst ?r)"
  proof
    assume "ledger_consistent (fst ?r)"
    moreover from b obtain u where "users (fst ?r) 7 = Some u" "totalXP u = 1"
      by (auto simp: balance_of_def)
    ultimately have "1 = sum_list (map deltaXP (entries_of (fst ?r) 7))"
      by (simp add: ledger_consistent_def)
    then show False by (simp add: d)
  qed
  show ?thesis
    using c r d a b n by blast
qed

text \<open>
  \<open>incrementXP\<close> is outside the invariant: it raises \<open>totalXP\<close> and leaves the ledger
  as it is.
\<close>

lemma incrementXP_bypasses_ledger:
  "ledger_consistent
     (empty_db\<lparr>users := Map.empty(7 \<mapsto> \<lparr>totalXP = 0\<rparr>), walletIndex := Map.empty(''0xabcd'' \<mapsto> 7)\<rparr>)"
  "ledger (fst (incrementXP
     (empty_db\<lparr>users := Map.empty(7 \<mapsto> \<lparr>totalXP = 0\<rparr>), walletIndex := Map.empty(''0xabcd'' \<mapsto> 7)\<rparr>)
     ''0xABCD'' 5)) = []"
  "balance_of (fst (incrementXP
     (empty_db\<lparr>users := Map.empty(7 \<mapsto> \<lparr>totalXP = 0\<rparr>), walletIndex := Map.empty(''0xabcd'' \<mapsto> 7)\<rparr>)
     ''0xABCD'' 5)) 7 = Some 5"
proof -
  have w: "walletAddress_setters (toLowerCase ''0xABCD'') = ''0xabcd''"
    by code_simp
  show "ledger_consistent
     (empty_db\<lparr>users := Map.empty(7 \<mapsto> \<lparr>totalXP = 0\<rparr>), walletIndex := Map.empty(''0xabcd'' \<mapsto> 7)\<rparr>)"
    by (simp add: ledger_consistent_def empty_db_def entries_of_def running_sums_ok_def
          split: if_splits)
  show "ledger (fst (incrementXP
     (empty_db\<lparr>users := Map.empty(7 \<mapsto> \<lparr>totalXP = 0\<rparr>), walletIndex := Map.empty(''0xabcd'' \<mapsto> 7)\<rparr>)
     ''0xABCD'' 5)) = []"
    by (simp add: incrementXP_def w empty_db_def)
  show "balance_of (fst (incrementXP
     (empty_db\<lparr>users := Map.empty(7 \<mapsto> \<lparr>totalXP = 0\<rparr>), walletIndex := Map.empty(''0xabcd'' \<mapsto> 7)\<rparr>)
     ''0xABCD'' 5)) 7 = Some 5"
    by (simp add: incrementXP_def w empty_db_def balance_of_def)
qed

section \<open>Awards one after another, and awards that overlap\<close>

lemma ledger_validate_other [simp]:
  "0 \<le> b \<Longrightarrow> ledger_validate \<lparr>le_userId = uid, le_eventId = eid, deltaXP = d, balanceAfter = b,
      reason = ''other'', description = ds, le_metadata = md\<rparr> = None"
  by (simp add: ledger_validate_def ledger_path_errors_def reason_enum_def)

lemma run_three:
  assumes "k < length tasks" and "tasks ! k = (c, Start)"
  shows "run_schedule (k # k # k # sched) (s, tasks) =
     (case addXP_step c s Start of (s1, p1) \<Rightarrow>
        case addXP_step c s1 p1 of (s2, p2) \<Rightarrow>
          case addXP_step c s2 p2 of (s3, p3) \<Rightarrow> run_schedule sched (s3, tasks[k := (c, p3)]))"
  using assms by (simp split: prod.splits)

lemma award_one_three_steps:
  assumes "users s uid = Some u" and "0 \<le> totalXP u"
  shows "\<exists>s3 e. addXP_step (award_one uid) s Start = (s, HaveBalance (totalXP u + 1))
       \<and> (\<exists>s2. addXP_step (award_one uid) s (HaveBalance (totalXP u + 1)) = (s2, Created (totalXP u + 1) e)
           \<and> addXP_step (award_one uid) s2 (Created (totalXP u + 1) e) = (s3, Returned e))
       \<and> users s3 = (users s)(uid \<mapsto> u\<lparr>totalXP := totalXP u + 1\<rparr>)
       \<and> length (ledger s3) = Suc (length (ledger s))"
  using assms
  by (simp add: award_one_def ledger_create_def user_set_totalXP_def Let_def)

lemma serial_from:
  assumes "length pre = k" and "users s uid = Some u" and "0 \<le> totalXP u"
  shows "\<exists>s' dn. run_schedule (concat (map (\<lambda>i. [i, i, i]) [k..<k + m]))
                    (s, pre @ replicate m (award_one uid, Start)) = (s', pre @ dn)
          \<and> length dn = m \<and> list_all has_returned dn
          \<and> users s' uid = Some (u\<lparr>totalXP := totalXP u + int m\<rparr>)
          \<and> length (ledger s') = length (ledger s) + m"
  using assms
proof (induction m arbitrary: k pre s u)
  case 0
  then show ?case by simp
next
  case (Suc m)
  obtain s3 e s2 where
    st1: "addXP_step (award_one uid) s Start = (s, HaveBalance (totalXP u + 1))" and
    st2: "addXP_step (award_one uid) s (HaveBalance (totalXP u + 1)) = (s2, Created (totalXP u + 1) e)" and
    st3: "addXP_step (award_one uid) s2 (Created (totalXP u + 1) e) = (s3, Returned e)" and
    us3: "users s3 = (users s)(uid \<mapsto> u\<lparr>totalXP := totalXP u + 1\<rparr>)" and
    ld3: "length (ledger s3) = Suc (length (ledger s))"
    using award_one_three_steps [OF Suc.prems(2,3)] by blast
  let ?tasks = "pre @ replicate (Suc m) (award_one uid, Start)"
  have k: "k < length ?tasks" and nth: "?tasks ! k = (award_one uid, Start)"
    using Suc.prems(1) by (simp_all add: nth_append)
  have upd: "?tasks[k := (award_one uid, Returned e)]
             = (pre @ [(award_one uid, Returned e)]) @ replicate m (award_one uid, Start)"
    using Suc.prems(1) by (simp add: list_update_append)
  have sched: "concat (map (\<lambda>i. [i, i, i]) [k..<k + Suc m])
               = k # k # k # concat (map (\<lambda>i. [i, i, i]) [Suc k..<Suc k + m])"
    by (simp add: upt_conv_Cons)
  have run: "run_schedule (concat (map (\<lambda>i. [i, i, i]) [k..<k + Suc m])) (s, ?tasks)
             = run_schedule (concat (map (\<lambda>i. [i, i, i]) [Suc k..<Suc k + m]))
                 (s3, (pre @ [(award_one uid, Returned e)]) @ replicate m (award_one uid, Start))"
    unfolding sched run_three [OF k nth] st1 by (simp only: prod.case st2 st3 upd)
  have len: "length (pre @ [(award_one uid, Returned e)]) = Suc k"
    using Suc.prems(1) by simp
  have u3: "users s3 uid = Some (u\<lparr>totalXP := totalXP u + 1\<rparr>)"
    using us3 by simp
  have nn: "0 \<le> totalXP (u\<lparr>totalXP := totalXP u + 1\<rparr>)"
    using Suc.prems(3) by simp
  from Suc.IH [OF len u3 nn] obtain s' dn where
    r: "run_schedule (concat (map (\<lambda>i. [i, i, i]) [Suc k..<Suc k + m]))
          (s3, (pre @ [(award_one uid, Returned e)]) @ replicate m (award_one uid, Start))
        = (s', (pre @ [(award_one uid, Returned e)]) @ dn)" and
    d: "length dn = m" "list_all has_returned dn" and
    us: "users s' uid = Some (u\<lparr>totalXP := totalXP u + 1\<rparr>\<lparr>totalXP := totalXP (u\<lparr>totalXP := totalXP u + 1\<rparr>) + int m\<rparr>)" and
    ld: "length (ledger s') = length (ledger s3) + m"
    by blast
  have hd: "has_returned (award_one uid, Returned e)"
    by (simp add: has_returned_def)
  have eq: "run_schedule (concat (map (\<lambda>i. [i, i, i]) [k..<k + Suc m])) (s, ?tasks)
            = (s', pre @ ((award_one uid, Returned e) # dn))"
    unfolding run r by simp
  have "length ((award_one uid, Returned e) # dn) = Suc m"
    using d by simp
  moreover have "list_all has_returned ((award_one uid, Returned e) # dn)"
    using d hd by simp
  moreover have "users s' uid = Some (u\<lparr>totalXP := totalXP u + int (Suc m)\<rparr>)"
    using us by (simp add: add.assoc)
  moreover have "length (ledger s') = length (ledger s) + Suc m"
    using ld ld3 by simp
  ultimately show ?case
    using eq by blast
qed

lemma addXP_is_three_steps:
  "addXP s uid d rsn ds md eid = (s', r) \<longleftrightarrow>
     (let c = \<lparr>c_userId = uid, c_deltaXP = d, c_reason = rsn, c_description = ds,
                c_metadata = md, c_eventId = eid\<rparr>
      in case addXP_step c s Start of (s1, p1) \<Rightarrow>
           case addXP_step c s1 p1 of (s2, p2) \<Rightarrow>
             case addXP_step c s2 p2 of (s3, p3) \<Rightarrow> s3 = s' \<and> outcome p3 = Some r)"
  by (auto simp: addXP_def Let_def outcome_def split: option.splits prod.splits sum.splits)

text \<open>
  C1, as amended. \<open>n\<close> awards of one point to the same user, run one after another,
  all return, append \<open>n\<close> entries and leave the balance exactly \<open>n\<close> higher.
\<close>

theorem serial_awards_add_up:
  assumes "users s uid = Some u" and "0 \<le> totalXP u"
  shows "\<exists>s' tasks. run_schedule (serial n) (s, awards n uid) = (s', tasks)
           \<and> length tasks = n \<and> list_all has_returned tasks
           \<and> balance_of s' uid = Some (totalXP u + int n)
           \<and> length (ledger s') = length (ledger s) + n"
proof -
  from serial_from [of "[]" 0 s uid u n, OF _ assms] obtain s' dn where
    "run_schedule (concat (map (\<lambda>i. [i, i, i]) [0..<0 + n])) (s, [] @ replicate n (award_one uid, Start))
       = (s', [] @ dn)"
    "length dn = n" "list_all has_returned dn"
    "users s' uid = Some (u\<lparr>totalXP := totalXP u + int n\<rparr>)"
    "length (ledger s') = length (ledger s) + n"
    by auto
  then show ?thesis
    by (simp add: serial_def awards_def balance_of_def)
qed

theorem serial_awards_add_up_witness:
  "\<exists>s' tasks. run_schedule (serial 50) (empty_db\<lparr>users := Map.empty(7 \<mapsto> \<lparr>totalXP = 10\<rparr>)\<rparr>, awards 50 7) = (s', tasks)
           \<and> length tasks = 50 \<and> list_all has_returned tasks
           \<and> balance_of s' 7 = Some 60
           \<and> length (ledger s') = 50"
  using serial_awards_add_up
    [of "empty_db\<lparr>users := Map.empty(7 \<mapsto> \<lparr>totalXP = 10\<rparr>)\<rparr>" 7 "\<lparr>totalXP = 10\<rparr>" 50]
  by (simp add: empty_db_def)

text \<open>
  C1 as stated fails: \<open>addXP\<close> holds no lock and runs in no transaction. When 50
  awards of one point to a user with 10 points all read the balance before any of them
  writes it, all 50 return, 50 entries are appended, and the balance is 11, not 60.
\<close>

theorem overlapping_awards_counterexample:
  "list_all has_returned
     (snd (run_schedule (lockstep 50) (empty_db\<lparr>users := Map.empty(7 \<mapsto> \<lparr>totalXP = 10\<rparr>)\<rparr>, awards 50 7)))
   \<and> length (ledger (fst (run_schedule (lockstep 50)
        (empty_db\<lparr>users := Map.empty(7 \<mapsto> \<lparr>totalXP = 10\<rparr>)\<rparr>, awards 50 7)))) = 50
   \<and> balance_of (fst (run_schedule (lockstep 50)
        (empty_db\<lparr>users := Map.empty(7 \<mapsto> \<lparr>totalXP = 10\<rparr>)\<rparr>, awards 50 7))) 7 = Some 11
   \<and> (11 :: int) \<noteq> 10 + 50"
  by code_simp

section \<open>Rule validation\<close>

text \<open>The scenario of the deposit rule: an amount of 5 is below the minimum of 10, 15 is not.\<close>

lemma deposit_scenario:
  "validateEvent (empty_db\<lparr>rules := [deposit_rule]\<rparr>) ''deposit''
     (no_metadata\<lparr>chainId := Some 84532, amount := Some ''5''\<rparr>) = invalid ''Minimum amount is 10''"
  "valid (validateEvent (empty_db\<lparr>rules := [deposit_rule]\<rparr>) ''deposit''
     (no_metadata\<lparr>chainId := Some 84532, amount := Some ''15''\<rparr>))"
  by code_simp+

text \<open>
  C5. The minimum amount is kept as a string, to avoid precision issues as the schema
  says, but \<open>validateEvent\<close> compares \<open>parseFloat\<close> of the two strings. Under the
  seeded deposit rule (minimum 10) the amount 9.9999999999999999 is below the minimum,
  yet both strings parse to the same double and the event is valid.
\<close>

theorem minimum_amount_compared_as_doubles:
  "parseFloat ''9.9999999999999999'' = parseFloat ''10''
   \<and> valid (validateEvent (empty_db\<lparr>rules := [deposit_rule]\<rparr>) ''deposit''
        (no_metadata\<lparr>chainId := Some 84532, amount := Some ''9.9999999999999999''\<rparr>))"
  by code_simp

text \<open>
  C6, as amended. Under an active rule with a non-empty chain allow-list, an event that
  carries a chain id outside the list is invalid with reason \<open>Invalid chain ID\<close>; an
  event that carries a chain id of the list, or no chain id (or 0), is never rejected
  for its chain.
\<close>

theorem chain_allow_list:
  assumes "getRuleByAction s a = Some rule" and "validChains rule \<noteq> []"
  shows "(chainId md = Some c \<and> c \<noteq> 0 \<and> c \<notin> set (validChains rule)
            \<longrightarrow> validateEvent s a md = invalid ''Invalid chain ID'')
       \<and> (chainId md = Some c \<and> c \<in> set (validChains rule)
            \<longrightarrow> vd_reason (validateEvent s a md) \<noteq> Some ''Invalid chain ID'')
       \<and> (chainId md = None \<or> chainId md = Some 0
            \<longrightarrow> vd_reason (validateEvent s a md) \<noteq> Some ''Invalid chain ID'')"
  using assms
  by (auto simp: validateEvent_def truthy_num_def array_includes_def invalid_def)

theorem chain_allow_list_witness:
  "getRuleByAction (empty_db\<lparr>rules := [deposit_rule]\<rparr>) ''DEPOSIT'' = Some deposit_rule
   \<and> validChains deposit_rule \<noteq> []
   \<and> chainId (no_metadata\<lparr>chainId := Some 1\<rparr>) = Some 1 \<and> (1 :: int) \<noteq> 0
   \<and> 1 \<notin> set (validChains deposit_rule)
   \<and> validateEvent (empty_db\<lparr>rules := [deposit_rule]\<rparr>) ''DEPOSIT'' (no_metadata\<lparr>chainId := Some 1\<rparr>)
       = invalid ''Invalid chain ID''"
proof -
  have r: "getRuleByAction (empty_db\<lparr>rules := [deposit_rule]\<rparr>) ''DEPOSIT'' = Some deposit_rule"
    by (simp add: getRuleByAction_def deposit_rule_def)
  have v: "validChains deposit_rule \<noteq> []"
    by (simp add: deposit_rule_def)
  show ?thesis
    using chain_allow_list [OF r v, of "no_metadata\<lparr>chainId := Some 1\<rparr>" 1] r v
    by (simp add: deposit_rule_def)
qed

text \<open>
  C6 as stated fails: the chain check runs only when the metadata carries a chain id.
  Under the seeded deposit rule, whose allow-list is \<open>[84532]\<close>, an event without any
  metadata is valid.
\<close>

theorem missing_chain_id_counterexample:
  "isActive deposit_rule \<and> validChains deposit_rule = [84532] \<and> chainId no_metadata = None
   \<and> validateEvent (empty_db\<lparr>rules := [deposit_rule]\<rparr>) ''deposit'' no_metadata
       = \<lparr>valid = True, vd_reason = None, vd_rule = Some deposit_rule\<rparr>"
  by (simp add: validateEvent_def getRuleByAction_def deposit_rule_def no_metadata_def
        truthy_num_def truthy_str_def)

section \<open>Cooldown\<close>

lemma most_recent_None: "most_recent es = None \<longleftrightarrow> es = []"
  by (induction es) (auto split: option.splits)

lemma most_recent_Some:
  assumes "most_recent es = Some m"
  shows "m \<in> set es \<and> (\<forall>e \<in> set es. occurredAt e \<le> occurredAt m)"
  using assms
proof (induction es arbitrary: m)
  case Nil
  then show ?case by simp
next
  case (Cons a es)
  show ?case
  proof (cases "most_recent es")
    case None
    then have "es = []" by (simp add: most_recent_None)
    then show ?thesis using Cons.prems by simp
  next
    case (Some m')
    from Cons.IH [OF Some] Cons.prems Some show ?thesis
      by (auto split: if_splits)
  qed
qed

lemma show_int_30: "show_int 30 = ''30''"
  by code_simp

text \<open>
  The check itself, under a rule with a cooldown of 60 minutes, for a user whose most
  recent verified or processed event of the action type is \<open>e\<close>.
\<close>

lemma cooldown_check:
  assumes rule: "cooldownMinutes rule = 60"
    and last: "e \<in> set (events s)" "successful uid (actionType rule) e"
    and latest: "\<forall>e' \<in> set (events s). successful uid (actionType rule) e' \<longrightarrow> occurredAt e' \<le> occurredAt e"
  shows "canUserEarnXP (en\<lparr>now := occurredAt e + 30 * 60000\<rparr>) s rule uid
           = \<lparr>canEarn = False, cd_reason = Some ''Cooldown active. Try again in 30 minutes.'',
              nextAvailableAt = Some (occurredAt e + 60 * 60000)\<rparr>
       \<and> canUserEarnXP (en\<lparr>now := occurredAt e + 61 * 60000\<rparr>) s rule uid
           = \<lparr>canEarn = True, cd_reason = None, nextAvailableAt = None\<rparr>
       \<and> canUserEarnXP en s rule uid
           = canUserEarnXP en (s\<lparr>events := filter (\<lambda>x. status x \<noteq> Failed) (events s)\<rparr>) rule uid"
proof (intro conjI)
  let ?T = "occurredAt e"
  have e_in: "earned uid (actionType rule) c e" if "c \<le> ?T" for c
    using last(2) that by (simp add: earned_def)
  have le: "occurredAt x \<le> ?T" if "x \<in> set (events s)" "earned uid (actionType rule) c x" for x c
    using latest that by (auto simp: earned_def)
  show "canUserEarnXP (en\<lparr>now := ?T + 30 * 60000\<rparr>) s rule uid
           = \<lparr>canEarn = False, cd_reason = Some ''Cooldown active. Try again in 30 minutes.'',
              nextAvailableAt = Some (?T + 60 * 60000)\<rparr>"
  proof -
    define xs where "xs = filter (earned uid (actionType rule) (?T + 30 * 60000 - 60 * 60 * 1000)) (events s)"
    have e_xs: "e \<in> set xs" using last(1) e_in by (simp add: xs_def)
    then have "xs \<noteq> []" by auto
    then obtain m where m: "most_recent xs = Some m"
      by (cases "most_recent xs") (auto simp: most_recent_None)
    from most_recent_Some [OF m] have m_xs: "m \<in> set xs" and "occurredAt e \<le> occurredAt m"
      using e_xs by auto
    moreover have "occurredAt m \<le> ?T" using le m_xs by (auto simp: xs_def)
    ultimately have "occurredAt m = ?T" by simp
    then show ?thesis
      using rule m by (simp add: canUserEarnXP_def Let_def ceil_div_def show_int_30 xs_def)
  qed
  show "canUserEarnXP (en\<lparr>now := ?T + 61 * 60000\<rparr>) s rule uid
           = \<lparr>canEarn = True, cd_reason = None, nextAvailableAt = None\<rparr>"
  proof -
    define xs where "xs = filter (earned uid (actionType rule) (?T + 61 * 60000 - 60 * 60 * 1000)) (events s)"
    have "xs = []"
    proof (rule ccontr)
      assume "xs \<noteq> []"
      then obtain x where x: "x \<in> set xs" by (cases xs) auto
      then have "occurredAt x \<le> ?T" using le by (auto simp: xs_def)
      moreover have "?T + 61 * 60000 - 60 * 60 * 1000 \<le> occurredAt x"
        using x by (simp add: earned_def xs_def)
      ultimately show False by simp
    qed
    then show ?thesis
      using rule by (simp add: canUserEarnXP_def Let_def xs_def)
  qed
  show "canUserEarnXP en s rule uid
           = canUserEarnXP en (s\<lparr>events := filter (\<lambda>x. status x \<noteq> Failed) (events s)\<rparr>) rule uid"
  proof -
    have "filter (earned uid a c) (filter (\<lambda>x. status x \<noteq> Failed) es) = filter (earned uid a c) es"
      for a c es
      by (induction es) (auto simp: earned_def successful_def)
    then show ?thesis by (simp add: canUserEarnXP_def Let_def)
  qed
qed

section \<open>The event pipeline\<close>

lemma processEvent_try_cases:
  assumes "processEvent_try en s uid ty md key = (s', r)"
  obtains
    (create_failed) err where
      "createEvent en s uid ty md key = (s', Inl err)" "r = Inl err"
  | (no_rule) s1 ev where
      "createEvent en s uid ty md key = (s1, Inr ev)" "getRuleByAction s1 ty = None"
      "s' = markProcessed s1 (ev_id ev)"
      "r = Inr \<lparr>success = True, pe_event = Some (ev_id ev), xpAwarded = 0,
                message = ''Event recorded but no XP rule configured'', pe_nextAvailableAt = None\<rparr>"
  | (turned_down) s1 ev rule why m nxt where
      "createEvent en s uid ty md key = (s1, Inr ev)" "getRuleByAction s1 ty = Some rule"
      "s' = markFailed s1 (ev_id ev) why" "r = Inr (rejected (ev_id ev) m nxt)"
  | (append_failed) s1 ev rule err where
      "createEvent en s uid ty md key = (s1, Inr ev)" "getRuleByAction s1 ty = Some rule"
      "truthy_str (txHash md) \<and> truthy_num (chainId md) \<longrightarrow> verified (verifyOnchainEvent en md)"
      "addXP (if truthy_str (txHash md) \<and> truthy_num (chainId md) then markVerified s1 (ev_id ev) else s1)
         uid (xpAmount rule) ty (''XP from '' @ ty) [(''eventId'', ev_id ev)] (Some (ev_id ev))
       = (s', Inl err)"
      "r = Inl err"
  | (awarded) s1 ev rule s3 entry where
      "createEvent en s uid ty md key = (s1, Inr ev)" "getRuleByAction s1 ty = Some rule"
      "truthy_str (txHash md) \<and> truthy_num (chainId md) \<longrightarrow> verified (verifyOnchainEvent en md)"
      "addXP (if truthy_str (txHash md) \<and> truthy_num (chainId md) then markVerified s1 (ev_id ev) else s1)
         uid (xpAmount rule) ty (''XP from '' @ ty) [(''eventId'', ev_id ev)] (Some (ev_id ev))
       = (s3, Inr entry)"
      "s' = updateQuestProgress en (markProcessed s3 (ev_id ev)) uid ty (ev_id ev)"
      "r = Inr \<lparr>success = True, pe_event = Some (ev_id ev), xpAwarded = xpAmount rule,
                message = ''Successfully earned '' @ show_int (xpAmount rule) @ '' XP'',
                pe_nextAvailableAt = None\<rparr>"
proof -
  obtain s1 r1 where ce: "createEvent en s uid ty md key = (s1, r1)"
    by fastforce
  show thesis
  proof (cases r1)
    case (Inl err)
    then show thesis
      using assms ce create_failed by (simp add: processEvent_try_def)
  next
    case (Inr ev)
    note ev = ce [unfolded Inr]
    show thesis
    proof (cases "getRuleByAction s1 ty")
      case None
      then show thesis
        using assms ev no_rule [OF ev None] by (simp add: processEvent_try_def)
    next
      case (Some rule)
      note td = turned_down [OF ev Some]
      show thesis
      proof (cases "valid (validateEvent s1 ty md)")
        case False
        then show thesis
          using assms ev Some td by (auto simp: processEvent_try_def Let_def)
      next
        case v: True
        show thesis
        proof (cases "canEarn (canUserEarnXP en s1 rule uid)")
          case False
          then show thesis
            using assms ev Some v td by (auto simp: processEvent_try_def Let_def)
        next
          case c: True
          show thesis
          proof (cases "withinLimit (checkDailyLimit en s1 rule uid)")
            case False
            then show thesis
              using assms ev Some v c td by (auto simp: processEvent_try_def Let_def)
          next
            case l: True
            let ?onchain = "truthy_str (txHash md) \<and> truthy_num (chainId md)"
            show thesis
            proof (cases "?onchain \<and> \<not> verified (verifyOnchainEvent en md)")
              case True
              then show thesis
                using assms ev Some v c l td by (auto simp: processEvent_try_def Let_def)
            next
              case ok: False
              let ?s2 = "if ?onchain then markVerified s1 (ev_id ev) else s1"
              obtain s3 r3 where ax:
                "addXP ?s2 uid (xpAmount rule) ty (''XP from '' @ ty) [(''eventId'', ev_id ev)]
                   (Some (ev_id ev)) = (s3, r3)"
                by fastforce
              have vf: "?onchain \<longrightarrow> verified (verifyOnchainEvent en md)"
                using ok by blast
              have body: "processEvent_try en s uid ty md key =
                (case addXP ?s2 uid (xpAmount rule) ty (''XP from '' @ ty) [(''eventId'', ev_id ev)]
                        (Some (ev_id ev)) of
                   (s3, Inl err) \<Rightarrow> (s3, Inl err)
                 | (s3, Inr entry) \<Rightarrow>
                     (updateQuestProgress en (markProcessed s3 (ev_id ev)) uid ty (ev_id ev),
                      Inr \<lparr>success = True, pe_event = Some (ev_id ev), xpAwarded = xpAmount rule,
                           message = ''Successfully earned '' @ show_int (xpAmount rule) @ '' XP'',
                           pe_nextAvailableAt = None\<rparr>))"
              proof -
                have a: "(?onchain \<and> \<not> verified (verifyOnchainEvent en md)) = False"
                  using ok by blast
                show ?thesis
                  by (simp only: processEvent_try_def Let_def ev prod.case sum.case Some option.case
                        v c l a if_True if_False not_True_eq_False simp_thms)
              qed
              show thesis
              proof (cases r3)
                case (Inl err)
                then show thesis
                  using assms body append_failed [OF ev Some vf] ax by simp
              next
                case (Inr entry)
                then show thesis
                  using assms body awarded [OF ev Some vf] ax by simp
              qed
            qed
          qed
        qed
      qed
    qed
  qed
qed

lemma duplicate_key_error_includes: "str_includes duplicate_key_error ''duplicate''"
  by (simp add: duplicate_key_error_def)

lemma addXP_Inl:
  assumes "addXP s uid d rsn ds md eid = (s', Inl m)"
  shows "s' = s"
  using assms
  by (auto simp: addXP_def ledger_create_def Let_def split: option.splits if_splits)

lemma addXP_Inr:
  assumes "addXP s uid d rsn ds md eid = (s', Inr e)"
  shows "\<exists>u. users s uid = Some u
           \<and> s' = s\<lparr>ledger := ledger s @ [e], users := (users s)(uid \<mapsto> u\<lparr>totalXP := totalXP u + d\<rparr>)\<rparr>
           \<and> deltaXP e = d \<and> le_userId e = uid \<and> le_eventId e = eid"
  using assms
  by (auto simp: addXP_def ledger_create_def user_set_totalXP_def Let_def split: option.splits if_splits)

lemma update_event_frame [simp]:
  "users (update_event s i f) = users s"
  "ledger (update_event s i f) = ledger s"
  "rules (update_event s i f) = rules s"
  by (simp_all add: update_event_def)

lemma mark_frame [simp]:
  "users (markProcessed s i) = users s" "ledger (markProcessed s i) = ledger s"
  "users (markVerified s i) = users s" "ledger (markVerified s i) = ledger s"
  "users (markFailed s i r) = users s" "ledger (markFailed s i r) = ledger s"
  by (simp_all add: markProcessed_def markVerified_def markFailed_def)

lemma updateQuestProgress_frame [simp]:
  "users (updateQuestProgress en s uid ty eid) = users s"
  "ledger (updateQuestProgress en s uid ty eid) = ledger s"
  "events (updateQuestProgress en s uid ty eid) = events s"
  by (simp_all add: updateQuestProgress_def Let_def split: option.splits)

lemma has_event_update_event:
  assumes "\<And>e. ev_userId (f e) = ev_userId e \<and> dedupKey (f e) = dedupKey e"
  shows "has_event (update_event s i f) uid k = has_event s uid k"
  using assms by (auto simp: has_event_def update_event_def)

lemma has_event_mark [simp]:
  "has_event (markProcessed s i) uid k = has_event s uid k"
  "has_event (markVerified s i) uid k = has_event s uid k"
  "has_event (markFailed s i r) uid k = has_event s uid k"
  by (simp_all add: markProcessed_def markVerified_def markFailed_def has_event_update_event)

lemma has_event_updateQuestProgress [simp]:
  "has_event (updateQuestProgress en s u ty eid) uid k = has_event s uid k"
  by (simp add: has_event_def)

lemma has_event_addXP:
  assumes "addXP s u d rsn ds md eid = (s', r)"
  shows "has_event s' uid k = has_event s uid k"
proof (cases r)
  case (Inl m)
  then show ?thesis using addXP_Inl assms by blast
next
  case (Inr e)
  with addXP_Inr assms obtain w where
    "s' = s\<lparr>ledger := ledger s @ [e], users := (users s)(u \<mapsto> w\<lparr>totalXP := totalXP w + d\<rparr>)\<rparr>"
    by blast
  then show ?thesis by (simp add: has_event_def)
qed

lemma createEvent_frame:
  assumes "createEvent en s uid ty md key = (s1, r)"
  shows "users s1 = users s" "ledger s1 = ledger s" "rules s1 = rules s"
  using assms by (auto simp: createEvent_def Let_def split: if_splits)

lemma createEvent_Inr:
  assumes "createEvent en s uid ty md (Some k) = (s1, Inr ev)"
  shows "has_event s1 uid k" "s1 = s\<lparr>events := events s @ [ev]\<rparr>" "status ev = Recorded"
    "ev_id ev = fresh_event_id s"
  using assms by (auto simp: createEvent_def Let_def has_event_def split: if_splits)

lemma createEvent_Inl:
  assumes "createEvent en s uid ty md (Some k) = (s1, Inl err)"
  shows "has_event s1 uid k" "s1 = s" "err = duplicate_key_error"
  using assms by (auto simp: createEvent_def Let_def split: if_splits)

lemma processEvent_state:
  assumes "processEvent en s uid ty md key = (s1, r1)"
  shows "\<exists>r. processEvent_try en s uid ty md key = (s1, r)"
  using assms by (auto simp: processEvent_def split: prod.splits sum.splits if_splits)

lemma processEvent_try_records:
  assumes "processEvent_try en s uid ty md (Some k) = (s1, r1)"
  shows "has_event s1 uid k"
  using assms
proof (cases rule: processEvent_try_cases)
  case (create_failed err)
  then show ?thesis using createEvent_Inl(1) by blast
next
  case (no_rule s0 ev)
  then show ?thesis using createEvent_Inr(1) by simp
next
  case (turned_down s0 ev rule why m nxt)
  then show ?thesis using createEvent_Inr(1) by simp
next
  case (append_failed s0 ev rule err)
  from createEvent_Inr(1) [OF append_failed(1)] have "has_event s0 uid k" .
  then show ?thesis using has_event_addXP [OF append_failed(4), of uid k] by (simp split: if_splits)
next
  case (awarded s0 ev rule s3 entry)
  from createEvent_Inr(1) [OF awarded(1)] have "has_event s0 uid k" .
  then show ?thesis using has_event_addXP [OF awarded(4), of uid k] awarded(5) by (simp split: if_splits)
qed

lemma createEvent_Inl_any:
  assumes "createEvent en s uid ty md key = (s1, Inl err)"
  shows "s1 = s" "err = duplicate_key_error"
  using assms by (auto simp: createEvent_def Let_def split: if_splits)

lemma createEvent_Inr_any:
  assumes "createEvent en s uid ty md key = (s1, Inr ev)"
  shows "events s1 = events s @ [ev]" "status ev = Recorded"
  using assms by (auto simp: createEvent_def Let_def split: if_splits)

lemma getRuleByAction_cong: "rules s' = rules s \<Longrightarrow> getRuleByAction s' a = getRuleByAction s a"
  by (simp add: getRuleByAction_def)

lemma processEvent_try_award:
  assumes "processEvent_try en s uid ty md key = (s1, r1)"
  shows "(\<exists>res u e. r1 = Inr res \<and> success res \<and> users s uid = Some u
            \<and> users s1 = (users s)(uid \<mapsto> u\<lparr>totalXP := totalXP u + xpAwarded res\<rparr>)
            \<and> ledger s1 = ledger s @ [e] \<and> deltaXP e = xpAwarded res
            \<and> le_userId e = uid \<and> le_eventId e = pe_event res)
       \<or> (users s1 = users s \<and> ledger s1 = ledger s \<and> (\<forall>res. r1 = Inr res \<longrightarrow> xpAwarded res = 0))"
  using assms
proof (cases rule: processEvent_try_cases)
  case (create_failed err)
  then show ?thesis using createEvent_frame by blast
next
  case (no_rule s0 ev)
  then show ?thesis using createEvent_frame [OF no_rule(1)] by simp
next
  case (turned_down s0 ev rule why m nxt)
  then show ?thesis using createEvent_frame [OF turned_down(1)] by (simp add: rejected_def)
next
  case (append_failed s0 ev rule err)
  from addXP_Inl [OF append_failed(4)] show ?thesis
    using createEvent_frame [OF append_failed(1)] append_failed(5) by (simp split: if_splits)
next
  case (awarded s0 ev rule s3 entry)
  let ?s2 = "if truthy_str (txHash md) \<and> truthy_num (chainId md) then markVerified s0 (ev_id ev) else s0"
  from addXP_Inr [OF awarded(4)] obtain u where
    u: "users ?s2 uid = Some u"
    and s3: "s3 = ?s2\<lparr>ledger := ledger ?s2 @ [entry],
                       users := (users ?s2)(uid \<mapsto> u\<lparr>totalXP := totalXP u + xpAmount rule\<rparr>)\<rparr>"
    and e: "deltaXP entry = xpAmount rule" "le_userId entry = uid" "le_eventId entry = Some (ev_id ev)"
    by blast
  have f: "users ?s2 = users s" "ledger ?s2 = ledger s"
    using createEvent_frame [OF awarded(1)] by simp_all
  have "users s1 = (users s)(uid \<mapsto> u\<lparr>totalXP := totalXP u + xpAmount rule\<rparr>)"
    "ledger s1 = ledger s @ [entry]"
    unfolding awarded(5) by (simp_all add: s3 f)
  moreover have "users s uid = Some u" using u f by simp
  ultimately show ?thesis
    using awarded(6) e by simp
qed

lemma processEvent_catch:
  assumes "processEvent_try en s uid ty md key = (s', r)"
  shows "processEvent en s uid ty md key =
           (case r of
              Inl err \<Rightarrow> if str_includes err ''duplicate'' then (s', Inr duplicate_outcome) else (s', Inl err)
            | Inr res \<Rightarrow> (s', Inr res))"
  using assms by (simp add: processEvent_def split: sum.splits)

lemma processEvent_award:
  assumes "processEvent en s uid ty md key = (s1, r1)"
  shows "(\<exists>res u e. r1 = Inr res \<and> success res \<and> users s uid = Some u
            \<and> users s1 = (users s)(uid \<mapsto> u\<lparr>totalXP := totalXP u + xpAwarded res\<rparr>)
            \<and> ledger s1 = ledger s @ [e] \<and> deltaXP e = xpAwarded res
            \<and> le_userId e = uid \<and> le_eventId e = pe_event res)
       \<or> (users s1 = users s \<and> ledger s1 = ledger s \<and> (\<forall>res. r1 = Inr res \<longrightarrow> xpAwarded res = 0))"
proof -
  from processEvent_state [OF assms] obtain r where t: "processEvent_try en s uid ty md key = (s1, r)"
    by blast
  show ?thesis
  proof (cases r)
    case (Inl err)
    from processEvent_try_award [OF t] Inl have "users s1 = users s \<and> ledger s1 = ledger s"
      by simp
    moreover have "\<forall>res. r1 = Inr res \<longrightarrow> xpAwarded res = 0"
      using assms processEvent_catch [OF t] Inl by (auto simp: duplicate_outcome_def split: if_splits)
    ultimately show ?thesis by blast
  next
    case (Inr res)
    then have "r1 = r" using assms processEvent_catch [OF t] by simp
    then show ?thesis using processEvent_try_award [OF t] by simp
  qed
qed

section \<open>Duplicate submissions\<close>

text \<open>
  C4. After a submission with a dedup key, whatever its outcome, a second submission
  by the same user with the same key returns the duplicate outcome (\<open>success\<close> false,
  \<open>xpAwarded\<close> 0, the duplicate message) and leaves the database as it is: no event,
  no ledger entry, no balance change, no quest update. What the two submissions award
  together is what the first one awarded: the balance rises by the \<open>xpAwarded\<close> of
  its result, with at most one ledger entry.
\<close>

theorem duplicate_submission:
  assumes "processEvent en s uid ty md (Some k) = (s1, r1)"
  shows "processEvent en' s1 uid ty' md' (Some k) = (s1, Inr duplicate_outcome)
       \<and> balance_of s1 uid
           = map_option (\<lambda>b. b + (case r1 of Inl err \<Rightarrow> 0 | Inr res \<Rightarrow> xpAwarded res)) (balance_of s uid)
       \<and> (ledger s1 = ledger s
            \<or> (\<exists>e. ledger s1 = ledger s @ [e] \<and> le_userId e = uid
                   \<and> deltaXP e = (case r1 of Inl err \<Rightarrow> 0 | Inr res \<Rightarrow> xpAwarded res)))"
proof -
  from processEvent_state [OF assms] obtain r where "processEvent_try en s uid ty md (Some k) = (s1, r)"
    by blast
  then have "has_event s1 uid k" by (rule processEvent_try_records)
  then have 1: "processEvent en' s1 uid ty' md' (Some k) = (s1, Inr duplicate_outcome)"
    by (simp add: processEvent_def processEvent_try_def createEvent_def duplicate_key_error_includes)
  from processEvent_award [OF assms] have
    2: "balance_of s1 uid
           = map_option (\<lambda>b. b + (case r1 of Inl err \<Rightarrow> 0 | Inr res \<Rightarrow> xpAwarded res)) (balance_of s uid)"
    by (cases r1; cases "users s uid") (auto simp: balance_of_def)
  from processEvent_award [OF assms] have
    3: "ledger s1 = ledger s
            \<or> (\<exists>e. ledger s1 = ledger s @ [e] \<and> le_userId e = uid
                   \<and> deltaXP e = (case r1 of Inl err \<Rightarrow> 0 | Inr res \<Rightarrow> xpAwarded res))"
    by auto
  show ?thesis using 1 2 3 by blast
qed

lemma show_int_50: "show_int 50 = ''50''"
  by code_simp

lemmas pipeline_defs =
  processEvent_def processEvent_try_def createEvent_def has_event_def fresh_event_id_def
  getRuleByAction_def validateEvent_def canUserEarnXP_def checkDailyLimit_def
  verifyOnchainEvent_def verifyTransaction_def isNuviaContract_def getExpectedContract_def
  getFaucet_def getVault_def getStrategy_def contract_at_def receipt_to_def unverified_def
  invalid_def rejected_def markProcessed_def markFailed_def markVerified_def update_event_def
  updateQuestProgress_def addXP_def ledger_create_def ledger_validate_def ledger_path_errors_def reason_enum_def
  ledger_metadata_paths_def user_set_totalXP_def truthy_str_def truthy_num_def str_of_def
  array_includes_def duplicate_outcome_def duplicate_key_error_def earned_def successful_def
  toLowerCase_def toLowerCase_char_def balance_of_def Let_def

lemmas example_defs =
  example_db_def example_env_def empty_db_def connect_rule_def deposit_rule_def faucet_rule_def
  no_metadata_def stray_receipt_def

theorem duplicate_submission_witness:
  "snd (processEvent example_env example_db 7 ''connect_wallet'' no_metadata (Some ''k1''))
     = Inr \<lparr>success = True, pe_event = Some 0, xpAwarded = 50,
            message = ''Successfully earned 50 XP'', pe_nextAvailableAt = None\<rparr>
   \<and> balance_of (fst (processEvent example_env example_db 7 ''connect_wallet'' no_metadata (Some ''k1''))) 7
       = Some 50
   \<and> processEvent example_env
        (fst (processEvent example_env example_db 7 ''connect_wallet'' no_metadata (Some ''k1'')))
        7 ''connect_wallet'' no_metadata (Some ''k1'')
       = (fst (processEvent example_env example_db 7 ''connect_wallet'' no_metadata (Some ''k1'')),
          Inr duplicate_outcome)"
proof -
  have r: "snd (processEvent example_env example_db 7 ''connect_wallet'' no_metadata (Some ''k1''))
     = Inr \<lparr>success = True, pe_event = Some 0, xpAwarded = 50,
            message = ''Successfully earned 50 XP'', pe_nextAvailableAt = None\<rparr>"
    by (simp add: pipeline_defs example_defs show_int_50)
  have b: "balance_of (fst (processEvent example_env example_db 7 ''connect_wallet'' no_metadata (Some ''k1''))) 7
       = Some 50"
    by (simp add: pipeline_defs example_defs)
  have p: "processEvent example_env example_db 7 ''connect_wallet'' no_metadata (Some ''k1'')
       = (fst (processEvent example_env example_db 7 ''connect_wallet'' no_metadata (Some ''k1'')),
          snd (processEvent example_env example_db 7 ''connect_wallet'' no_metadata (Some ''k1'')))"
    by simp
  show ?thesis
    using duplicate_submission [OF p, of example_env "''connect_wallet''" no_metadata] r b by blast
qed

section \<open>Cooldown in the pipeline\<close>

lemma earned_recorded: "status x = Recorded \<Longrightarrow> \<not> earned uid a c x"
  by (simp add: earned_def successful_def)

lemma canUserEarnXP_recorded:
  assumes "status x = Recorded"
  shows "canUserEarnXP en (s\<lparr>events := events s @ [x]\<rparr>) rule uid = canUserEarnXP en s rule uid"
  using assms by (simp add: canUserEarnXP_def Let_def earned_recorded)

lemma checkDailyLimit_recorded:
  assumes "status x = Recorded"
  shows "checkDailyLimit en (s\<lparr>events := events s @ [x]\<rparr>) rule uid = checkDailyLimit en s rule uid"
  using assms by (simp add: checkDailyLimit_def Let_def earned_recorded)

lemma validateEvent_cong: "rules s' = rules s \<Longrightarrow> validateEvent s' a md = validateEvent s a md"
  by (simp add: validateEvent_def getRuleByAction_def)

lemma createEvent_new:
  assumes "\<not> has_event s uid k"
  shows "createEvent en s uid ty md (Some k)
           = (s\<lparr>events := events s @
                  [\<lparr>ev_id = fresh_event_id s, ev_userId = uid, ev_type = ty, ev_metadata = md,
                    dedupKey = k, status = Recorded, occurredAt = now en, failureReason = None\<rparr>]\<rparr>,
              Inr \<lparr>ev_id = fresh_event_id s, ev_userId = uid, ev_type = ty, ev_metadata = md,
                    dedupKey = k, status = Recorded, occurredAt = now en, failureReason = None\<rparr>)"
  using assms by (simp add: createEvent_def Let_def)

lemma processEvent_cooldown_rejects:
  assumes rule: "getRuleByAction s ty = Some rule"
    and ok: "valid (validateEvent s ty md)"
    and new: "\<not> has_event s uid k"
    and cd: "canUserEarnXP en s rule uid = \<lparr>canEarn = False, cd_reason = Some why, nextAvailableAt = nxt\<rparr>"
  shows "\<exists>s1. processEvent en s uid ty md (Some k) = (s1, Inr (rejected (fresh_event_id s) why nxt))
           \<and> users s1 = users s \<and> ledger s1 = ledger s
           \<and> (\<exists>x \<in> set (events s1). ev_id x = fresh_event_id s \<and> status x = Failed
                  \<and> failureReason x = Some why)"
proof -
  let ?ev = "\<lparr>ev_id = fresh_event_id s, ev_userId = uid, ev_type = ty, ev_metadata = md,
              dedupKey = k, status = Recorded, occurredAt = now en, failureReason = None\<rparr>"
  let ?s1 = "s\<lparr>events := events s @ [?ev]\<rparr>"
  have ce: "createEvent en s uid ty md (Some k) = (?s1, Inr ?ev)"
    using createEvent_new [OF new] .
  have r1: "getRuleByAction ?s1 ty = Some rule"
    using rule by (simp add: getRuleByAction_def)
  have v1: "valid (validateEvent ?s1 ty md)"
    using ok validateEvent_cong [of ?s1 s ty md] by simp
  have c1: "canUserEarnXP en ?s1 rule uid = \<lparr>canEarn = False, cd_reason = Some why, nextAvailableAt = nxt\<rparr>"
    using cd canUserEarnXP_recorded [of ?ev en s rule uid] by simp
  have t: "processEvent_try en s uid ty md (Some k)
             = (markFailed ?s1 (fresh_event_id s) (Some why), Inr (rejected (fresh_event_id s) why nxt))"
    by (simp add: processEvent_try_def ce r1 v1 c1 Let_def str_of_def)
  have p: "processEvent en s uid ty md (Some k)
             = (markFailed ?s1 (fresh_event_id s) (Some why), Inr (rejected (fresh_event_id s) why nxt))"
    using processEvent_catch [OF t] by simp
  have "\<exists>x \<in> set (events (markFailed ?s1 (fresh_event_id s) (Some why))).
           ev_id x = fresh_event_id s \<and> status x = Failed \<and> failureReason x = Some why"
    by (simp add: markFailed_def update_event_def)
  then show ?thesis
    using p by simp
qed

lemma createEvent_Inr_state:
  assumes "createEvent en s uid ty md key = (s1, Inr ev)"
  shows "s1 = s\<lparr>events := events s @ [ev]\<rparr>"
  using assms by (auto simp: createEvent_def Let_def split: if_splits)

lemma processEvent_cooldown_blocks:
  assumes rule: "getRuleByAction s ty = Some rule"
    and cd: "\<not> canEarn (canUserEarnXP en s rule uid)"
    and pe: "processEvent en s uid ty md key = (s1, r1)"
  shows "users s1 = users s \<and> ledger s1 = ledger s
       \<and> (\<exists>res. r1 = Inr res \<and> \<not> success res \<and> xpAwarded res = 0)"
proof -
  obtain s0 r0 where ce: "createEvent en s uid ty md key = (s0, r0)"
    by fastforce
  show ?thesis
  proof (cases r0)
    case (Inl err)
    have e: "s0 = s" "err = duplicate_key_error"
      using createEvent_Inl_any [OF ce [unfolded Inl]] .
    have "processEvent_try en s uid ty md key = (s, Inl duplicate_key_error)"
      using ce Inl e by (simp add: processEvent_try_def)
    from processEvent_catch [OF this] have "processEvent en s uid ty md key = (s, Inr duplicate_outcome)"
      by (simp add: duplicate_key_error_includes)
    then show ?thesis
      using pe by (auto simp: duplicate_outcome_def)
  next
    case (Inr ev)
    note ce = ce [unfolded Inr]
    have s0: "s0 = s\<lparr>events := events s @ [ev]\<rparr>"
      using createEvent_Inr_state [OF ce] .
    have r1: "getRuleByAction s0 ty = Some rule"
      using rule by (simp add: s0 getRuleByAction_def)
    have c1: "\<not> canEarn (canUserEarnXP en s0 rule uid)"
      using cd canUserEarnXP_recorded [OF createEvent_Inr_any(2) [OF ce], of en s rule uid]
      by (simp add: s0)
    have "\<exists>why m nxt. processEvent_try en s uid ty md key
            = (markFailed s0 (ev_id ev) why, Inr (rejected (ev_id ev) m nxt))"
    proof (cases "valid (validateEvent s0 ty md)")
      case True
      then have "processEvent_try en s uid ty md key
            = (markFailed s0 (ev_id ev) (cd_reason (canUserEarnXP en s0 rule uid)),
               Inr (rejected (ev_id ev) (str_of (cd_reason (canUserEarnXP en s0 rule uid)))
                      (nextAvailableAt (canUserEarnXP en s0 rule uid))))"
        using c1 by (simp add: processEvent_try_def ce r1 Let_def)
      then show ?thesis
        by blast
    next
      case False
      then have "processEvent_try en s uid ty md key
            = (markFailed s0 (ev_id ev) (vd_reason (validateEvent s0 ty md)),
               Inr (rejected (ev_id ev) (str_of (vd_reason (validateEvent s0 ty md))) None))"
        by (simp add: processEvent_try_def ce r1 Let_def)
      then show ?thesis
        by blast
    qed
    then obtain why m nxt where
      "processEvent_try en s uid ty md key = (markFailed s0 (ev_id ev) why, Inr (rejected (ev_id ev) m nxt))"
      by blast
    from processEvent_catch [OF this]
    have "processEvent en s uid ty md key = (markFailed s0 (ev_id ev) why, Inr (rejected (ev_id ev) m nxt))"
      by simp
    then show ?thesis
      using pe by (auto simp: rejected_def s0)
  qed
qed

lemma processEvent_awards:
  assumes rule: "getRuleByAction s ty = Some rule"
    and ok: "valid (validateEvent s ty md)"
    and new: "\<not> has_event s uid k"
    and cd: "canEarn (canUserEarnXP en s rule uid)"
    and lim: "withinLimit (checkDailyLimit en s rule uid)"
    and off: "\<not> (truthy_str (txHash md) \<and> truthy_num (chainId md))"
    and usr: "users s uid = Some u" "0 \<le> totalXP u + xpAmount rule"
    and rsn: "ty \<in> set reason_enum"
  shows "\<exists>s1. processEvent en s uid ty md (Some k)
                 = (s1, Inr \<lparr>success = True, pe_event = Some (fresh_event_id s),
                             xpAwarded = xpAmount rule,
                             message = ''Successfully earned '' @ show_int (xpAmount rule) @ '' XP'',
                             pe_nextAvailableAt = None\<rparr>)
           \<and> balance_of s1 uid = Some (totalXP u + xpAmount rule)"
proof -
  let ?ev = "\<lparr>ev_id = fresh_event_id s, ev_userId = uid, ev_type = ty, ev_metadata = md,
              dedupKey = k, status = Recorded, occurredAt = now en, failureReason = None\<rparr>"
  let ?s1 = "s\<lparr>events := events s @ [?ev]\<rparr>"
  have ce: "createEvent en s uid ty md (Some k) = (?s1, Inr ?ev)"
    using createEvent_new [OF new] .
  have r1: "getRuleByAction ?s1 ty = Some rule"
    using rule by (simp add: getRuleByAction_def)
  have v1: "valid (validateEvent ?s1 ty md)"
    using ok validateEvent_cong [of ?s1 s ty md] by simp
  have c1: "canEarn (canUserEarnXP en ?s1 rule uid)"
    using cd canUserEarnXP_recorded [of ?ev en s rule uid] by simp
  have l1: "withinLimit (checkDailyLimit en ?s1 rule uid)"
    using lim checkDailyLimit_recorded [of ?ev en s rule uid] by simp
  have ne: "ty \<noteq> []"
    using rsn by (auto simp: reason_enum_def)
  have val: "ledger_validate \<lparr>le_userId = uid, le_eventId = Some (fresh_event_id s),
               deltaXP = xpAmount rule, balanceAfter = totalXP u + xpAmount rule, reason = ty,
               description = ''XP from '' @ ty, le_metadata = [(''eventId'', fresh_event_id s)]\<rparr> = None"
    using usr(2) rsn ne by (simp add: ledger_validate_def ledger_path_errors_def)
  obtain s3 entry where ax:
    "addXP ?s1 uid (xpAmount rule) ty (''XP from '' @ ty) [(''eventId'', fresh_event_id s)]
       (Some (fresh_event_id s)) = (s3, Inr entry)"
    "users s3 uid = Some (u\<lparr>totalXP := totalXP u + xpAmount rule\<rparr>)"
    using usr val
    by (simp add: addXP_def ledger_create_def user_set_totalXP_def Let_def)
  have t: "processEvent_try en s uid ty md (Some k)
             = (updateQuestProgress en (markProcessed s3 (fresh_event_id s)) uid ty (fresh_event_id s),
                Inr \<lparr>success = True, pe_event = Some (fresh_event_id s), xpAwarded = xpAmount rule,
                     message = ''Successfully earned '' @ show_int (xpAmount rule) @ '' XP'',
                     pe_nextAvailableAt = None\<rparr>)"
  proof -
    have oc: "(truthy_str (txHash md) \<and> truthy_num (chainId md)) = False"
      using off by simp
    show ?thesis
      using ax(1) by (simp add: processEvent_try_def ce r1 v1 c1 l1 Let_def oc)
  qed
  show ?thesis
    using processEvent_catch [OF t] ax(2) by (simp add: balance_of_def)
qed

lemma show_int_25: "show_int 25 = ''25''"
  by code_simp

text \<open>
  C7. Under the active rule of an action type, with a cooldown of 60 minutes, for a user
  whose most recent verified or processed event of the action type occurred at \<open>T\<close>:
  at \<open>T\<close> + 30 min the cooldown check fails with \<open>nextAvailableAt\<close> exactly \<open>T\<close> + 60
  min; every submission of the action type to \<open>processEvent\<close> at that time returns
  \<open>success\<close> false, awards nothing and leaves balances and ledger as they were; a new
  submission that the rule validates is marked failed and its result carries
  \<open>nextAvailableAt\<close> exactly \<open>T\<close> + 60 min; at \<open>T\<close> + 61 min the cooldown check
  passes, and such a submission earns the XP of the rule when the daily limit allows
  it, the event is not an on-chain one and the ledger accepts the entry; and the failed
  events of the collection have no part in the answer of the check.
\<close>

theorem cooldown_enforcement:
  assumes rule: "getRuleByAction s ty = Some rule" "cooldownMinutes rule = 60"
    and ok: "valid (validateEvent s ty md)"
    and new: "\<not> has_event s uid k"
    and last: "e \<in> set (events s)" "successful uid (actionType rule) e"
    and latest: "\<forall>e' \<in> set (events s). successful uid (actionType rule) e' \<longrightarrow> occurredAt e' \<le> occurredAt e"
  shows "canUserEarnXP (en\<lparr>now := occurredAt e + 30 * 60000\<rparr>) s rule uid
           = \<lparr>canEarn = False, cd_reason = Some ''Cooldown active. Try again in 30 minutes.'',
              nextAvailableAt = Some (occurredAt e + 60 * 60000)\<rparr>
       \<and> (\<forall>md' key' s1 r1.
             processEvent (en\<lparr>now := occurredAt e + 30 * 60000\<rparr>) s uid ty md' key' = (s1, r1)
             \<longrightarrow> users s1 = users s \<and> ledger s1 = ledger s
                 \<and> (\<exists>res. r1 = Inr res \<and> \<not> success res \<and> xpAwarded res = 0))
       \<and> (\<exists>s1. processEvent (en\<lparr>now := occurredAt e + 30 * 60000\<rparr>) s uid ty md (Some k)
                  = (s1, Inr \<lparr>success = False, pe_event = Some (fresh_event_id s), xpAwarded = 0,
                              message = ''Cooldown active. Try again in 30 minutes.'',
                              pe_nextAvailableAt = Some (occurredAt e + 60 * 60000)\<rparr>)
              \<and> users s1 = users s \<and> ledger s1 = ledger s
              \<and> (\<exists>x \<in> set (events s1). ev_id x = fresh_event_id s \<and> status x = Failed
                     \<and> failureReason x = Some ''Cooldown active. Try again in 30 minutes.''))
       \<and> canUserEarnXP (en\<lparr>now := occurredAt e + 61 * 60000\<rparr>) s rule uid
           = \<lparr>canEarn = True, cd_reason = None, nextAvailableAt = None\<rparr>
       \<and> (withinLimit (checkDailyLimit (en\<lparr>now := occurredAt e + 61 * 60000\<rparr>) s rule uid)
            \<and> \<not> (truthy_str (txHash md) \<and> truthy_num (chainId md))
            \<and> users s uid = Some u \<and> 0 \<le> totalXP u + xpAmount rule \<and> ty \<in> set reason_enum
           \<longrightarrow> (\<exists>s1. processEvent (en\<lparr>now := occurredAt e + 61 * 60000\<rparr>) s uid ty md (Some k)
                      = (s1, Inr \<lparr>success = True, pe_event = Some (fresh_event_id s),
                                  xpAwarded = xpAmount rule,
                                  message = ''Successfully earned '' @ show_int (xpAmount rule) @ '' XP'',
                                  pe_nextAvailableAt = None\<rparr>)
                  \<and> balance_of s1 uid = Some (totalXP u + xpAmount rule)))
       \<and> canUserEarnXP en s rule uid
           = canUserEarnXP en (s\<lparr>events := filter (\<lambda>x. status x \<noteq> Failed) (events s)\<rparr>) rule uid"
proof -
  note chk = cooldown_check [OF rule(2) last latest]
  have c30: "canUserEarnXP (en\<lparr>now := occurredAt e + 30 * 60000\<rparr>) s rule uid
           = \<lparr>canEarn = False, cd_reason = Some ''Cooldown active. Try again in 30 minutes.'',
              nextAvailableAt = Some (occurredAt e + 60 * 60000)\<rparr>"
    using chk [of en] by blast
  have c61: "canUserEarnXP (en\<lparr>now := occurredAt e + 61 * 60000\<rparr>) s rule uid
           = \<lparr>canEarn = True, cd_reason = None, nextAvailableAt = None\<rparr>"
    using chk [of en] by blast
  have flt: "canUserEarnXP en s rule uid
           = canUserEarnXP en (s\<lparr>events := filter (\<lambda>x. status x \<noteq> Failed) (events s)\<rparr>) rule uid"
    using chk [of en] by blast
  have p30: "\<exists>s1. processEvent (en\<lparr>now := occurredAt e + 30 * 60000\<rparr>) s uid ty md (Some k)
                  = (s1, Inr \<lparr>success = False, pe_event = Some (fresh_event_id s), xpAwarded = 0,
                              message = ''Cooldown active. Try again in 30 minutes.'',
                              pe_nextAvailableAt = Some (occurredAt e + 60 * 60000)\<rparr>)
              \<and> users s1 = users s \<and> ledger s1 = ledger s
              \<and> (\<exists>x \<in> set (events s1). ev_id x = fresh_event_id s \<and> status x = Failed
                     \<and> failureReason x = Some ''Cooldown active. Try again in 30 minutes.'')"
    using processEvent_cooldown_rejects [OF rule(1) ok new c30] by (simp add: rejected_def)
  have p61: "\<exists>s1. processEvent (en\<lparr>now := occurredAt e + 61 * 60000\<rparr>) s uid ty md (Some k)
                      = (s1, Inr \<lparr>success = True, pe_event = Some (fresh_event_id s),
                                  xpAwarded = xpAmount rule,
                                  message = ''Successfully earned '' @ show_int (xpAmount rule) @ '' XP'',
                                  pe_nextAvailableAt = None\<rparr>)
                  \<and> balance_of s1 uid = Some (totalXP u + xpAmount rule)"
    if "withinLimit (checkDailyLimit (en\<lparr>now := occurredAt e + 61 * 60000\<rparr>) s rule uid)"
      "\<not> (truthy_str (txHash md) \<and> truthy_num (chainId md))"
      "users s uid = Some u" "0 \<le> totalXP u + xpAmount rule" "ty \<in> set reason_enum"
  proof -
    have ce: "canEarn (canUserEarnXP (en\<lparr>now := occurredAt e + 61 * 60000\<rparr>) s rule uid)"
      using c61 by simp
    show ?thesis
      by (rule processEvent_awards [OF rule(1) ok new ce that])
  qed
  have b30: "users s1 = users s \<and> ledger s1 = ledger s
                 \<and> (\<exists>res. r1 = Inr res \<and> \<not> success res \<and> xpAwarded res = 0)"
    if "processEvent (en\<lparr>now := occurredAt e + 30 * 60000\<rparr>) s uid ty md' key' = (s1, r1)"
    for md' key' s1 r1
  proof -
    have nc: "\<not> canEarn (canUserEarnXP (en\<lparr>now := occurredAt e + 30 * 60000\<rparr>) s rule uid)"
      using c30 by simp
    show ?thesis
      by (rule processEvent_cooldown_blocks [OF rule(1) nc that])
  qed
  show ?thesis
    using c30 b30 p30 c61 p61 flt by blast
qed

theorem cooldown_enforcement_witness:
  "canUserEarnXP (example_env\<lparr>now := 1000000 + 30 * 60000\<rparr>)
     (example_db\<lparr>events := [claim_processed, claim_failed]\<rparr>) faucet_rule 7
     = \<lparr>canEarn = False, cd_reason = Some ''Cooldown active. Try again in 30 minutes.'',
        nextAvailableAt = Some (1000000 + 60 * 60000)\<rparr>
   \<and> snd (processEvent (example_env\<lparr>now := 1000000 + 30 * 60000\<rparr>)
            (example_db\<lparr>events := [claim_processed, claim_failed]\<rparr>) 7 ''claim_faucet'' no_metadata
            (Some ''c3''))
       = Inr \<lparr>success = False, pe_event = Some 2, xpAwarded = 0,
              message = ''Cooldown active. Try again in 30 minutes.'',
              pe_nextAvailableAt = Some (1000000 + 60 * 60000)\<rparr>
   \<and> (\<exists>res. snd (processEvent (example_env\<lparr>now := 1000000 + 30 * 60000\<rparr>)
                   (example_db\<lparr>events := [claim_processed, claim_failed]\<rparr>) 7 ''claim_faucet''
                   no_metadata (Some ''a''))
              = Inr res \<and> \<not> success res \<and> xpAwarded res = 0)
   \<and> canEarn (canUserEarnXP (example_env\<lparr>now := 1000000 + 61 * 60000\<rparr>)
        (example_db\<lparr>events := [claim_processed, claim_failed]\<rparr>) faucet_rule 7)
   \<and> snd (processEvent (example_env\<lparr>now := 1000000 + 61 * 60000\<rparr>)
            (example_db\<lparr>events := [claim_processed, claim_failed]\<rparr>) 7 ''claim_faucet'' no_metadata
            (Some ''c3''))
       = Inr \<lparr>success = True, pe_event = Some 2, xpAwarded = 25,
              message = ''Successfully earned 25 XP'', pe_nextAvailableAt = None\<rparr>"
proof -
  let ?s = "example_db\<lparr>events := [claim_processed, claim_failed]\<rparr>"
  let ?pa = "processEvent (example_env\<lparr>now := 1000000 + 30 * 60000\<rparr>) ?s 7 ''claim_faucet''
               no_metadata (Some ''a'')"
  have 0: "getRuleByAction ?s ''claim_faucet'' = Some faucet_rule"
    by (simp add: getRuleByAction_def example_db_def connect_rule_def deposit_rule_def
          faucet_rule_def)
  have 1: "cooldownMinutes faucet_rule = 60"
    by (simp add: faucet_rule_def)
  have v: "valid (validateEvent ?s ''claim_faucet'' no_metadata)"
    by (simp add: validateEvent_def getRuleByAction_def example_db_def connect_rule_def
          deposit_rule_def faucet_rule_def no_metadata_def truthy_num_def truthy_str_def)
  have n: "\<not> has_event ?s 7 ''c3''"
    by (simp add: has_event_def claim_processed_def claim_failed_def)
  have 2: "claim_processed \<in> set (events ?s)"
    by simp
  have 3: "successful 7 (actionType faucet_rule) claim_processed"
    by (simp add: successful_def faucet_rule_def claim_processed_def)
  have 4: "\<forall>e' \<in> set (events ?s). successful 7 (actionType faucet_rule) e'
             \<longrightarrow> occurredAt e' \<le> occurredAt claim_processed"
    by (simp add: successful_def claim_processed_def claim_failed_def)
  have T: "occurredAt claim_processed = 1000000"
    by (simp add: claim_processed_def)
  have f: "fresh_event_id ?s = 2"
    by (simp add: fresh_event_id_def claim_processed_def claim_failed_def)
  have l: "withinLimit (checkDailyLimit (example_env\<lparr>now := 1000000 + 61 * 60000\<rparr>) ?s faucet_rule 7)"
    by (simp add: checkDailyLimit_def faucet_rule_def truthy_num_def earned_def successful_def
          example_env_def claim_processed_def claim_failed_def Let_def)
  have h: "\<not> (truthy_str (txHash no_metadata) \<and> truthy_num (chainId no_metadata))"
    "users ?s 7 = Some \<lparr>totalXP = 0\<rparr>" "0 \<le> totalXP \<lparr>totalXP = 0\<rparr> + xpAmount faucet_rule"
    "''claim_faucet'' \<in> set reason_enum" "xpAmount faucet_rule = 25"
    by (simp_all add: no_metadata_def truthy_str_def example_db_def empty_db_def faucet_rule_def
          reason_enum_def)
  note t = cooldown_enforcement [OF 0 1 v n 2 3 4, of example_env "\<lparr>totalXP = 0\<rparr>", unfolded T f]
  have pa: "?pa = (fst ?pa, snd ?pa)"
    by simp
  have a: "\<exists>res. snd ?pa = Inr res \<and> \<not> success res \<and> xpAwarded res = 0"
    using t [THEN conjunct2, THEN conjunct1, rule_format, OF pa] by blast
  have rest: "canUserEarnXP (example_env\<lparr>now := 1000000 + 30 * 60000\<rparr>) ?s faucet_rule 7
     = \<lparr>canEarn = False, cd_reason = Some ''Cooldown active. Try again in 30 minutes.'',
        nextAvailableAt = Some (1000000 + 60 * 60000)\<rparr>
   \<and> snd (processEvent (example_env\<lparr>now := 1000000 + 30 * 60000\<rparr>) ?s 7 ''claim_faucet'' no_metadata
            (Some ''c3''))
       = Inr \<lparr>success = False, pe_event = Some 2, xpAwarded = 0,
              message = ''Cooldown active. Try again in 30 minutes.'',
              pe_nextAvailableAt = Some (1000000 + 60 * 60000)\<rparr>
   \<and> canEarn (canUserEarnXP (example_env\<lparr>now := 1000000 + 61 * 60000\<rparr>) ?s faucet_rule 7)
   \<and> snd (processEvent (example_env\<lparr>now := 1000000 + 61 * 60000\<rparr>) ?s 7 ''claim_faucet'' no_metadata
            (Some ''c3''))
       = Inr \<lparr>success = True, pe_event = Some 2, xpAwarded = 25,
              message = ''Successfully earned 25 XP'', pe_nextAvailableAt = None\<rparr>"
    using t [THEN conjunct1] t [THEN conjunct2, THEN conjunct2, THEN conjunct1]
      t [THEN conjunct2, THEN conjunct2, THEN conjunct2, THEN conjunct1]
      t [THEN conjunct2, THEN conjunct2, THEN conjunct2, THEN conjunct2, THEN conjunct1] l h
    by (auto simp: show_int_25)
  show ?thesis
    using a rest by blast
qed

section \<open>On-chain verification\<close>

lemma wrong_destination_unverified:
  assumes "chainId md = Some c" and "providers en c = Some getReceipt"
    and "getReceipt (txHash md) = Inr (Some rc)" and "rc_status rc = 1"
    and "rc_to rc = Some dest" and "dest \<noteq> []" and "\<not> isNuviaContract en (Some dest)"
  shows "verifyOnchainEvent en md = unverified ''Transaction not sent to expected contract''
       \<or> verifyOnchainEvent en md = unverified ''Transaction not sent to a valid Nuvia contract''"
  using assms
  by (simp add: verifyOnchainEvent_def verifyTransaction_def receipt_to_def unverified_def
        truthy_str_def Let_def)

lemma processEvent_unverified:
  assumes oc: "truthy_str (txHash md)" "truthy_num (chainId md)"
    and nv: "\<not> verified (verifyOnchainEvent en md)"
    and pe: "processEvent en s uid ty md key = (s1, r1)"
  shows "users s1 = users s \<and> ledger s1 = ledger s
       \<and> (\<forall>res. r1 = Inr res \<longrightarrow> xpAwarded res = 0)
       \<and> (\<forall>s0 ev rule. createEvent en s uid ty md key = (s0, Inr ev) \<and> getRuleByAction s ty = Some rule
             \<longrightarrow> (\<exists>res. r1 = Inr res \<and> \<not> success res)
                 \<and> (\<exists>e \<in> set (events s1). ev_id e = ev_id ev \<and> status e = Failed))"
proof -
  from processEvent_state [OF pe] obtain r where t: "processEvent_try en s uid ty md key = (s1, r)"
    by blast
  note c = processEvent_catch [OF t, unfolded pe]
  from t show ?thesis
  proof (cases rule: processEvent_try_cases)
    case (create_failed err)
    from createEvent_Inl_any [OF create_failed(1)] have "s1 = s" "err = duplicate_key_error" .
    then show ?thesis
      using c create_failed by (simp add: duplicate_key_error_includes duplicate_outcome_def)
  next
    case (no_rule s0 ev)
    have "getRuleByAction s ty = None"
      using no_rule(2) getRuleByAction_cong [OF createEvent_frame(3) [OF no_rule(1)]] by simp
    then show ?thesis
      using c no_rule createEvent_frame [OF no_rule(1)] by simp
  next
    case (turned_down s0 ev rule why m nxt)
    have ev: "events s0 = events s @ [ev]"
      using createEvent_Inr_any(1) [OF turned_down(1)] .
    have "\<exists>e \<in> set (events s1). ev_id e = ev_id ev \<and> status e = Failed"
      unfolding turned_down(3) by (simp add: markFailed_def update_event_def ev)
    then show ?thesis
      using c turned_down createEvent_frame [OF turned_down(1)] by (simp add: rejected_def)
  next
    case (append_failed s0 ev rule err)
    then show ?thesis using oc nv by simp
  next
    case (awarded s0 ev rule s3 entry)
    then show ?thesis using oc nv by simp
  qed
qed

lemma stray_not_nuvia: "\<not> isNuviaContract example_env (Some ''0x00000000000000000000000000000000DeaDBeef'')"
  by (simp add: isNuviaContract_def example_env_def truthy_str_def str_of_def toLowerCase_def
        toLowerCase_char_def Let_def)

lemma processEvent_no_rule:
  assumes ce: "createEvent en s uid ty md key = (s0, Inr ev)" and nr: "getRuleByAction s ty = None"
  shows "processEvent en s uid ty md key
         = (markProcessed s0 (ev_id ev),
            Inr \<lparr>success = True, pe_event = Some (ev_id ev), xpAwarded = 0,
                  message = ''Event recorded but no XP rule configured'', pe_nextAvailableAt = None\<rparr>)"
proof -
  have "getRuleByAction s0 ty = None"
    using nr getRuleByAction_cong [OF createEvent_frame(3) [OF ce]] by simp
  then have "processEvent_try en s uid ty md key
         = (markProcessed s0 (ev_id ev),
            Inr \<lparr>success = True, pe_event = Some (ev_id ev), xpAwarded = 0,
                  message = ''Event recorded but no XP rule configured'', pe_nextAvailableAt = None\<rparr>)"
    by (simp add: processEvent_try_def ce)
  from processEvent_catch [OF this] show ?thesis
    by simp
qed

text \<open>
  C8, as amended. For an event with a transaction hash and a chain id whose transaction
  succeeded on chain and was sent to an address that is not among the registry's
  contracts, \<open>processEvent\<close> adds no ledger entry and changes no balance, and a result
  it returns awards 0 XP; when the submission creates its event and an active rule
  exists for the action type, the result has \<open>success\<close> false and the event ends with
  status \<open>failed\<close>; when the submission creates its event and no active rule exists for
  the action type, the transaction is not looked at: the result has \<open>success\<close> true with
  0 XP and the event ends with status \<open>processed\<close>.
\<close>

theorem wrong_destination_rejected:
  assumes "truthy_str (txHash md)" and "chainId md = Some c" and "c \<noteq> 0"
    and "providers en c = Some getReceipt" and "getReceipt (txHash md) = Inr (Some rc)"
    and "rc_status rc = 1"
    and "rc_to rc = Some dest" and "dest \<noteq> []" and "\<not> isNuviaContract en (Some dest)"
    and "processEvent en s uid ty md key = (s1, r1)"
  shows "users s1 = users s \<and> ledger s1 = ledger s
       \<and> (\<forall>res. r1 = Inr res \<longrightarrow> xpAwarded res = 0)
       \<and> (\<forall>s0 ev rule. createEvent en s uid ty md key = (s0, Inr ev) \<and> getRuleByAction s ty = Some rule
             \<longrightarrow> (\<exists>res. r1 = Inr res \<and> \<not> success res)
                 \<and> (\<exists>e \<in> set (events s1). ev_id e = ev_id ev \<and> status e = Failed))
       \<and> (\<forall>s0 ev. createEvent en s uid ty md key = (s0, Inr ev) \<and> getRuleByAction s ty = None
             \<longrightarrow> r1 = Inr \<lparr>success = True, pe_event = Some (ev_id ev), xpAwarded = 0,
                            message = ''Event recorded but no XP rule configured'',
                            pe_nextAvailableAt = None\<rparr>
                 \<and> s1 = markProcessed s0 (ev_id ev)
                 \<and> (\<exists>e \<in> set (events s1). ev_id e = ev_id ev \<and> status e = Processed))"
proof -
  have "\<not> verified (verifyOnchainEvent en md)"
    using wrong_destination_unverified [OF assms(2,4,5,6,7,8,9)] by (auto simp: unverified_def)
  moreover have "truthy_num (chainId md)"
    using assms(2,3) by (simp add: truthy_num_def)
  ultimately have main: "users s1 = users s \<and> ledger s1 = ledger s
       \<and> (\<forall>res. r1 = Inr res \<longrightarrow> xpAwarded res = 0)
       \<and> (\<forall>s0 ev rule. createEvent en s uid ty md key = (s0, Inr ev) \<and> getRuleByAction s ty = Some rule
             \<longrightarrow> (\<exists>res. r1 = Inr res \<and> \<not> success res)
                 \<and> (\<exists>e \<in> set (events s1). ev_id e = ev_id ev \<and> status e = Failed))"
    using processEvent_unverified [OF assms(1) _ _ assms(10)] by blast
  have none: "r1 = Inr \<lparr>success = True, pe_event = Some (ev_id ev), xpAwarded = 0,
                         message = ''Event recorded but no XP rule configured'',
                         pe_nextAvailableAt = None\<rparr>
              \<and> s1 = markProcessed s0 (ev_id ev)
              \<and> (\<exists>e \<in> set (events s1). ev_id e = ev_id ev \<and> status e = Processed)"
    if ce: "createEvent en s uid ty md key = (s0, Inr ev)" and nr: "getRuleByAction s ty = None"
    for s0 ev
  proof -
    have eq: "s1 = markProcessed s0 (ev_id ev)"
      "r1 = Inr \<lparr>success = True, pe_event = Some (ev_id ev), xpAwarded = 0,
                 message = ''Event recorded but no XP rule configured'',
                 pe_nextAvailableAt = None\<rparr>"
      using processEvent_no_rule [OF ce nr] assms(10) by simp_all
    have "events s0 = events s @ [ev]"
      using createEvent_Inr_any(1) [OF ce] .
    then have "\<exists>e \<in> set (events s1). ev_id e = ev_id ev \<and> status e = Processed"
      unfolding eq(1) by (simp add: markProcessed_def update_event_def)
    then show ?thesis
      using eq by blast
  qed
  show ?thesis
    using main none by blast
qed

theorem wrong_destination_rejected_witness:
  "snd (processEvent example_env example_db 7 ''deposit'' stray_md (Some ''k1''))
     = Inr (rejected 0 ''Onchain verification failed: Transaction not sent to a valid Nuvia contract'' None)
   \<and> map status (events (fst (processEvent example_env example_db 7 ''deposit'' stray_md (Some ''k1''))))
       = [Failed]
   \<and> ledger (fst (processEvent example_env example_db 7 ''deposit'' stray_md (Some ''k1''))) = []
   \<and> balance_of (fst (processEvent example_env example_db 7 ''deposit'' stray_md (Some ''k1''))) 7 = Some 0"
proof -
  let ?p = "processEvent example_env example_db 7 ''deposit'' stray_md (Some ''k1'')"
  have r: "snd ?p = Inr (rejected 0 ''Onchain verification failed: Transaction not sent to a valid Nuvia contract'' None)"
    by (simp add: pipeline_defs example_defs stray_md_def)
  have e: "map status (events (fst ?p)) = [Failed]"
    by (simp add: pipeline_defs example_defs stray_md_def)
  have h: "truthy_str (txHash stray_md)" "chainId stray_md = Some 84532" "(84532 :: int) \<noteq> 0"
    "providers example_env 84532
       = Some (\<lambda>h. if h = Some ''0xabc1'' then Inr (Some stray_receipt) else Inr None)"
    "(\<lambda>h. if h = Some ''0xabc1'' then Inr (Some stray_receipt) else Inr None) (txHash stray_md)
       = Inr (Some stray_receipt)"
    "rc_status stray_receipt = 1"
    "rc_to stray_receipt = Some ''0x00000000000000000000000000000000DeaDBeef''"
    "''0x00000000000000000000000000000000DeaDBeef'' \<noteq> []"
    by (simp_all add: stray_md_def no_metadata_def truthy_str_def example_env_def stray_receipt_def)
  have p: "?p = (fst ?p, snd ?p)" by simp
  from wrong_destination_rejected [OF h stray_not_nuvia p]
  have "users (fst ?p) = users example_db" "ledger (fst ?p) = ledger example_db"
    by blast+
  then have "ledger (fst ?p) = []" "balance_of (fst ?p) 7 = Some 0"
    by (simp_all add: example_db_def empty_db_def balance_of_def)
  then show ?thesis using r e by blast
qed


text \<open>
  C8 as stated fails: the transaction is looked at only when a rule exists. For an
  action type without an active rule the event is marked processed and the result has
  \<open>success\<close> true (with no XP), whatever the destination of its transaction.
\<close>

theorem no_rule_counterexample:
  "truthy_str (txHash stray_md) \<and> truthy_num (chainId stray_md)
   \<and> rc_status stray_receipt = 1 \<and> \<not> isNuviaContract example_env (rc_to stray_receipt)
   \<and> snd (processEvent example_env example_db 7 ''swap'' stray_md (Some ''k1''))
       = Inr \<lparr>success = True, pe_event = Some 0, xpAwarded = 0,
              message = ''Event recorded but no XP rule configured'', pe_nextAvailableAt = None\<rparr>
   \<and> map status (events (fst (processEvent example_env example_db 7 ''swap'' stray_md (Some ''k1''))))
       = [Processed]"
  by (simp add: pipeline_defs example_defs stray_md_def)


text \<open>
  The registry check is skipped for a receipt without a destination (the receipt of a
  contract creation), although \<open>isNuviaContract\<close> itself answers no for a missing
  address. When the metadata names no contract and no token, nothing else compares the
  destination, and the transaction passes.
\<close>

lemma no_destination_passes:
  assumes "chainId md = Some c" and "providers en c = Some getReceipt"
    and "getReceipt (txHash md) = Inr (Some rc)" and "rc_status rc = 1" and "rc_to rc = None"
    and "\<not> truthy_str (contractAddress md)" and "\<not> truthy_str (tokenSymbol md)"
  shows "verifyOnchainEvent en md = \<lparr>verified = True, vf_reason = None, vf_receipt = Some rc\<rparr>"
    and "\<not> isNuviaContract en (rc_to rc)"
  using assms
  by (simp_all add: verifyOnchainEvent_def verifyTransaction_def receipt_to_def isNuviaContract_def
        truthy_str_def Let_def split: option.splits)

lemma no_destination_example:
  "snd (processEvent
          (example_env\<lparr>providers := Map.empty(84532 \<mapsto> (\<lambda>h. Inr (Some (stray_receipt\<lparr>rc_to := None\<rparr>))))\<rparr>)
          example_db 7 ''deposit'' stray_md (Some ''k1''))
     = Inr \<lparr>success = True, pe_event = Some 0, xpAwarded = 100,
            message = ''Successfully earned 100 XP'', pe_nextAvailableAt = None\<rparr>"
proof -
  have "show_int 100 = ''100''" by code_simp
  then show ?thesis
    by (simp add: pipeline_defs example_defs stray_md_def)
qed

section \<open>Errors in the pipeline\<close>

text \<open>
  C10, as amended. An error comes out of the \<open>try\<close> block of \<open>processEvent\<close> only
  from the creation of the event or from the ledger append. For every such error the
  \<open>catch\<close> block looks at the message alone: with \<open>duplicate\<close> in it the result is
  the duplicate outcome, whatever threw it and whatever the \<open>try\<close> block had written;
  otherwise the error is thrown again.
\<close>

theorem catch_classifies:
  assumes "processEvent_try en s uid ty md key = (s', Inl err)"
  shows "processEvent en s uid ty md key
           = (if str_includes err ''duplicate'' then (s', Inr duplicate_outcome) else (s', Inl err))
       \<and> (createEvent en s uid ty md key = (s', Inl err)
           \<or> (\<exists>s2 i xp. addXP s2 uid xp ty (''XP from '' @ ty) [(''eventId'', i)] (Some i) = (s', Inl err)))"
proof -
  have 1: "processEvent en s uid ty md key
           = (if str_includes err ''duplicate'' then (s', Inr duplicate_outcome) else (s', Inl err))"
    using processEvent_catch [OF assms] by simp
  from assms have 2: "createEvent en s uid ty md key = (s', Inl err)
           \<or> (\<exists>s2 i xp. addXP s2 uid xp ty (''XP from '' @ ty) [(''eventId'', i)] (Some i) = (s', Inl err))"
  proof (cases rule: processEvent_try_cases)
    case (create_failed e)
    then show ?thesis by simp
  next
    case (append_failed s0 ev rule e)
    then show ?thesis by blast
  qed simp_all
  show ?thesis using 1 2 by blast
qed

theorem catch_classifies_witness:
  "snd (processEvent_try example_env (example_db\<lparr>rules := [report_rule]\<rparr>) 7 ''report_duplicate''
          no_metadata (Some ''k1''))
     = Inl ''XPLedger validation failed: reason: `report_duplicate` is not a valid enum value for path `reason`.''
   \<and> snd (processEvent example_env (example_db\<lparr>rules := [report_rule]\<rparr>) 7 ''report_duplicate''
            no_metadata (Some ''k1''))
       = Inr duplicate_outcome
   \<and> map status (events (fst (processEvent example_env (example_db\<lparr>rules := [report_rule]\<rparr>) 7
        ''report_duplicate'' no_metadata (Some ''k1'')))) = [Recorded]"
proof -
  let ?s = "example_db\<lparr>rules := [report_rule]\<rparr>"
  let ?t = "processEvent_try example_env ?s 7 ''report_duplicate'' no_metadata (Some ''k1'')"
  let ?m = "''XPLedger validation failed: reason: `report_duplicate` is not a valid enum value for path `reason`.''"
  have t: "snd ?t = Inl ?m"
    by (simp add: pipeline_defs example_defs report_rule_def)
  have e: "map status (events (fst ?t)) = [Recorded]"
    by (simp add: pipeline_defs example_defs report_rule_def)
  have i: "str_includes ?m ''duplicate''"
    by simp
  have p: "?t = (fst ?t, Inl ?m)"
    using t by (metis prod.collapse)
  from catch_classifies [OF p] i
  have "processEvent example_env ?s 7 ''report_duplicate'' no_metadata (Some ''k1'')
          = (fst ?t, Inr duplicate_outcome)"
    by simp
  then show ?thesis using t e by simp
qed


text \<open>
  C10 as stated fails for the quest fan-out: \<open>updateQuestProgress\<close> catches its own
  errors. A duplicate-key error thrown while the quest progress is updated is logged,
  and \<open>processEvent\<close> returns the success outcome with the XP awarded.
\<close>

theorem quest_fanout_counterexample:
  "questFanout (example_env\<lparr>questFanout := (\<lambda>uid ty eid. Some quest_collision)\<rparr>) 7 ''connect_wallet'' 0
     = Some quest_collision
   \<and> str_includes quest_collision ''duplicate''
   \<and> snd (processEvent (example_env\<lparr>questFanout := (\<lambda>uid ty eid. Some quest_collision)\<rparr>) example_db 7
            ''connect_wallet'' no_metadata (Some ''k1''))
       = Inr \<lparr>success = True, pe_event = Some 0, xpAwarded = 50,
              message = ''Successfully earned 50 XP'', pe_nextAvailableAt = None\<rparr>
   \<and> success \<lparr>success = True, pe_event = Some 0, xpAwarded = 50,
              message = ''Successfully earned 50 XP'', pe_nextAvailableAt = None\<rparr>
       \<noteq> success duplicate_outcome"
  by (simp add: pipeline_defs example_defs quest_collision_def show_int_50)

section \<open>Referrals\<close>

lemma createReferral_Inr:
  assumes "createReferral s inviter invitee code = (s1, Inr r0)"
  shows "s1 = s\<lparr>referrals := referrals s @ [r0]\<rparr>" "inviteeUserId r0 = invitee" "rf_status r0 = Pending"
    "find (\<lambda>r. inviteeUserId r = invitee) (referrals s) = None"
  using assms by (auto simp: createReferral_def Let_def split: option.splits if_splits)

lemma createReferral_again:
  assumes "createReferral s inviter invitee code = (s1, Inr r0)"
  shows "createReferral s1 inviter' invitee code' = (s1, Inl ''User has already been referred'')"
proof -
  have "find (\<lambda>r. inviteeUserId r = invitee) (referrals s1) \<noteq> None"
    using createReferral_Inr(1,2) [OF assms] by (auto simp: find_None_iff)
  then show ?thesis
    by (auto simp: createReferral_def)
qed

lemma distributeRewards_unverified:
  assumes "rf_status r \<noteq> RVerified"
  shows "distributeRewards en s r x y = (s, Inl ''Referral must be verified before distributing rewards'')"
  using assms by (simp add: distributeRewards_def)

lemma distributeRewards_Inr:
  assumes "distributeRewards en s r x y = (s2, Inr r2)"
  shows "rf_status r = RVerified"
    and "r2 = r\<lparr>rewardInviterXP := x, rewardInviteeXP := y, rf_status := Rewarded, rewardedAt := Some (now en)\<rparr>"
    and "\<exists>s1 sb e1 e2.
           addXP s (inviterUserId r) x ''referral_reward_inviter'' ''Referral reward for inviting user''
             [(''referralId'', rf_id r)] None = (s1, Inr e1)
         \<and> addXP s1 (inviteeUserId r) y ''referral_reward_invitee'' ''Referral reward for joining''
             [(''referralId'', rf_id r)] None = (sb, Inr e2)
         \<and> s2 = save_referral sb r2"
  using assms
  by (auto simp: distributeRewards_def Let_def split: if_splits prod.splits sum.splits)

lemma save_referral_frame [simp]:
  "users (save_referral s r) = users s" "ledger (save_referral s r) = ledger s"
  by (simp_all add: save_referral_def)

lemma createReferral_existing:
  assumes "\<exists>r \<in> set (referrals s). inviteeUserId r = invitee"
  shows "createReferral s inviter invitee code = (s, Inl ''User has already been referred'')"
proof -
  have "find (\<lambda>r. inviteeUserId r = invitee) (referrals s) \<noteq> None"
    using assms by (auto simp: find_None_iff)
  then show ?thesis
    by (auto simp: createReferral_def)
qed

lemma distributeRewards_Inl:
  assumes "distributeRewards en s r x y = (s2, Inl err)"
  shows "s2 = s
       \<or> (\<exists>e1 u1. users s (inviterUserId r) = Some u1
             \<and> s2 = s\<lparr>ledger := ledger s @ [e1],
                       users := (users s)(inviterUserId r \<mapsto> u1\<lparr>totalXP := totalXP u1 + x\<rparr>)\<rparr>
             \<and> le_userId e1 = inviterUserId r \<and> deltaXP e1 = x)"
proof (cases "rf_status r = RVerified")
  case False
  then show ?thesis
    using assms by (simp add: distributeRewards_def)
next
  case True
  obtain sa ra where a1:
    "addXP s (inviterUserId r) x ''referral_reward_inviter'' ''Referral reward for inviting user''
       [(''referralId'', rf_id r)] None = (sa, ra)"
    by fastforce
  show ?thesis
  proof (cases ra)
    case (Inl m)
    have "sa = s"
      using addXP_Inl [OF a1 [unfolded Inl]] .
    then show ?thesis
      using assms True a1 Inl by (simp add: distributeRewards_def)
  next
    case (Inr e1)
    note f = addXP_Inr [OF a1 [unfolded Inr]]
    obtain sb rb where a2:
      "addXP sa (inviteeUserId r) y ''referral_reward_invitee'' ''Referral reward for joining''
         [(''referralId'', rf_id r)] None = (sb, rb)"
      by fastforce
    show ?thesis
    proof (cases rb)
      case (Inl m)
      have "sb = sa"
        using addXP_Inl [OF a2 [unfolded Inl]] .
      then have "s2 = sa"
        using assms True a1 Inr a2 Inl by (simp add: distributeRewards_def)
      then show ?thesis
        using f by blast
    next
      case r2: (Inr e2)
      then show ?thesis
        using assms True a1 Inr a2 by (simp add: distributeRewards_def Let_def)
    qed
  qed
qed

text \<open>
  C9, as amended. \<open>createReferral\<close> for an invitee who has a referral throws
  \<open>User has already been referred\<close> and creates no row. \<open>distributeRewards\<close> throws
  and changes nothing unless the status is \<open>verified\<close>; when it returns, it has
  appended one ledger entry for the inviter and one for the invitee, raised each
  balance by its reward, and set the status to \<open>rewarded\<close>, so that a second
  invocation, on the document in memory or on the stored one, throws and changes
  nothing. When it throws, the referrals are as they were, and either nothing is
  changed or the award of the inviter alone is in the ledger and in the inviter's
  balance.
\<close>

theorem referral_single_use:
  "((\<exists>r' \<in> set (referrals s). inviteeUserId r' = invitee)
      \<longrightarrow> createReferral s inviter invitee code = (s, Inl ''User has already been referred''))
   \<and> (createReferral s inviter invitee code = (s1, Inr r0)
      \<longrightarrow> createReferral s1 inviter' invitee code' = (s1, Inl ''User has already been referred'')
          \<and> referrals s1 = referrals s @ [r0])
   \<and> (rf_status r \<noteq> RVerified
      \<longrightarrow> distributeRewards en s r x y
            = (s, Inl ''Referral must be verified before distributing rewards''))
   \<and> (distributeRewards en s r x y = (s2, Inr r2)
      \<longrightarrow> rf_status r = RVerified \<and> rf_status r2 = Rewarded
          \<and> (\<exists>e1 e2. ledger s2 = ledger s @ [e1, e2]
                \<and> le_userId e1 = inviterUserId r \<and> deltaXP e1 = x
                \<and> le_userId e2 = inviteeUserId r \<and> deltaXP e2 = y)
          \<and> (inviterUserId r \<noteq> inviteeUserId r
                \<longrightarrow> balance_of s2 (inviterUserId r) = map_option (\<lambda>b. b + x) (balance_of s (inviterUserId r))
                    \<and> balance_of s2 (inviteeUserId r) = map_option (\<lambda>b. b + y) (balance_of s (inviteeUserId r)))
          \<and> distributeRewards en' s2 r2 x' y'
               = (s2, Inl ''Referral must be verified before distributing rewards'')
          \<and> (\<forall>r' \<in> set (referrals s2). rf_id r' = rf_id r
                \<longrightarrow> distributeRewards en' s2 r' x' y'
                      = (s2, Inl ''Referral must be verified before distributing rewards'')))
   \<and> (distributeRewards en s r x y = (s3, Inl err)
      \<longrightarrow> referrals s3 = referrals s
          \<and> (s3 = s
              \<or> (\<exists>e1. ledger s3 = ledger s @ [e1]
                    \<and> le_userId e1 = inviterUserId r \<and> deltaXP e1 = x
                    \<and> balance_of s3 (inviterUserId r)
                        = map_option (\<lambda>b. b + x) (balance_of s (inviterUserId r)))))"
proof (intro conjI impI)
  assume "\<exists>r' \<in> set (referrals s). inviteeUserId r' = invitee"
  then show "createReferral s inviter invitee code = (s, Inl ''User has already been referred'')"
    by (rule createReferral_existing)
next
  assume i: "distributeRewards en s r x y = (s3, Inl err)"
  note g = distributeRewards_Inl [OF i]
  show "referrals s3 = referrals s"
    using g by auto
  show "s3 = s
      \<or> (\<exists>e1. ledger s3 = ledger s @ [e1]
            \<and> le_userId e1 = inviterUserId r \<and> deltaXP e1 = x
            \<and> balance_of s3 (inviterUserId r)
                = map_option (\<lambda>b. b + x) (balance_of s (inviterUserId r)))"
    using g by (auto simp: balance_of_def)
next
  assume c: "createReferral s inviter invitee code = (s1, Inr r0)"
  show "createReferral s1 inviter' invitee code' = (s1, Inl ''User has already been referred'')"
    using createReferral_again [OF c] .
  show "referrals s1 = referrals s @ [r0]"
    using createReferral_Inr(1) [OF c] by simp
next
  assume "rf_status r \<noteq> RVerified"
  then show "distributeRewards en s r x y
            = (s, Inl ''Referral must be verified before distributing rewards'')"
    by (rule distributeRewards_unverified)
next
  assume d: "distributeRewards en s r x y = (s2, Inr r2)"
  note f = distributeRewards_Inr [OF d]
  show "rf_status r = RVerified" using f(1) .
  show rw: "rf_status r2 = Rewarded" using f(2) by simp
  from f(3) obtain sa sb e1 e2 where
    a1: "addXP s (inviterUserId r) x ''referral_reward_inviter'' ''Referral reward for inviting user''
             [(''referralId'', rf_id r)] None = (sa, Inr e1)" and
    a2: "addXP sa (inviteeUserId r) y ''referral_reward_invitee'' ''Referral reward for joining''
             [(''referralId'', rf_id r)] None = (sb, Inr e2)" and
    s2: "s2 = save_referral sb r2"
    by blast
  from addXP_Inr [OF a1] obtain u1 where
    u1: "users s (inviterUserId r) = Some u1"
    and sa: "sa = s\<lparr>ledger := ledger s @ [e1],
                    users := (users s)(inviterUserId r \<mapsto> u1\<lparr>totalXP := totalXP u1 + x\<rparr>)\<rparr>"
    and e1: "deltaXP e1 = x" "le_userId e1 = inviterUserId r"
    by blast
  from addXP_Inr [OF a2] obtain u2 where
    u2: "users sa (inviteeUserId r) = Some u2"
    and sb: "sb = sa\<lparr>ledger := ledger sa @ [e2],
                     users := (users sa)(inviteeUserId r \<mapsto> u2\<lparr>totalXP := totalXP u2 + y\<rparr>)\<rparr>"
    and e2: "deltaXP e2 = y" "le_userId e2 = inviteeUserId r"
    by blast
  have "ledger s2 = ledger s @ [e1, e2]"
    by (simp add: s2 sb sa)
  then show "\<exists>e1 e2. ledger s2 = ledger s @ [e1, e2]
                \<and> le_userId e1 = inviterUserId r \<and> deltaXP e1 = x
                \<and> le_userId e2 = inviteeUserId r \<and> deltaXP e2 = y"
    using e1 e2 by blast
  show "distributeRewards en' s2 r2 x' y'
               = (s2, Inl ''Referral must be verified before distributing rewards'')"
    using rw by (simp add: distributeRewards_def)
  show "\<forall>r' \<in> set (referrals s2). rf_id r' = rf_id r
                \<longrightarrow> distributeRewards en' s2 r' x' y'
                      = (s2, Inl ''Referral must be verified before distributing rewards'')"
  proof (intro ballI impI)
    fix r' assume "r' \<in> set (referrals s2)" "rf_id r' = rf_id r"
    then have "r' = r2"
      using f(2) by (auto simp: s2 save_referral_def split: if_splits)
    then show "distributeRewards en' s2 r' x' y'
                      = (s2, Inl ''Referral must be verified before distributing rewards'')"
      using rw by (simp add: distributeRewards_def)
  qed
  assume ne: "inviterUserId r \<noteq> inviteeUserId r"
  have "users s (inviteeUserId r) = Some u2"
    using u2 ne by (simp add: sa)
  then show "balance_of s2 (inviterUserId r) = map_option (\<lambda>b. b + x) (balance_of s (inviterUserId r))"
    and "balance_of s2 (inviteeUserId r) = map_option (\<lambda>b. b + y) (balance_of s (inviteeUserId r))"
    using u1 ne by (simp_all add: s2 sb sa balance_of_def)
qed

lemmas referral_defs =
  createReferral_def distributeRewards_def save_referral_def fresh_referral_id_def addXP_def
  ledger_create_def ledger_validate_def ledger_path_errors_def reason_enum_def
  ledger_metadata_paths_def user_set_totalXP_def referral_db_def verified_referral_def
  empty_db_def balance_of_def Let_def

lemma toUpperCase_example: "toUpperCase ''nuv-xyz789'' = ''NUV-XYZ789''"
  by code_simp

theorem referral_single_use_witness:
  "snd (createReferral referral_db 1 3 ''nuv-xyz789'')
     = Inr \<lparr>rf_id = 1, inviterUserId = 1, inviteeUserId = 3, referralCode = ''NUV-XYZ789'',
            rf_status = Pending, firstLogin = False, firstOnchainAction = False,
            minXPReached = False, minXPThreshold = 100, rewardInviterXP = 0,
            rewardInviteeXP = 0, rewardedAt = None\<rparr>
   \<and> createReferral (fst (createReferral referral_db 1 3 ''nuv-xyz789'')) 1 3 ''nuv-xyz789''
       = (fst (createReferral referral_db 1 3 ''nuv-xyz789''), Inl ''User has already been referred'')
   \<and> createReferral referral_db 5 2 ''nuv-xyz789''
       = (referral_db, Inl ''User has already been referred'')
   \<and> balance_of (fst (distributeRewards example_env referral_db verified_referral 500 100)) 1 = Some 540
   \<and> balance_of (fst (distributeRewards example_env referral_db verified_referral 500 100)) 2 = Some 220
   \<and> map rf_status (referrals (fst (distributeRewards example_env referral_db verified_referral 500 100)))
       = [Rewarded]
   \<and> distributeRewards example_env
        (fst (distributeRewards example_env referral_db verified_referral 500 100))
        (verified_referral\<lparr>rewardInviterXP := 500, rewardInviteeXP := 100, rf_status := Rewarded,
                            rewardedAt := Some (now example_env)\<rparr>) 500 100
       = (fst (distributeRewards example_env referral_db verified_referral 500 100),
          Inl ''Referral must be verified before distributing rewards'')
   \<and> snd (distributeRewards example_env referral_db_no_invitee verified_referral 500 100)
       = Inl ''User not found''
   \<and> referrals (fst (distributeRewards example_env referral_db_no_invitee verified_referral 500 100))
       = referrals referral_db_no_invitee"
proof -
  let ?c = "createReferral referral_db 1 3 ''nuv-xyz789''"
  let ?d = "distributeRewards example_env referral_db verified_referral 500 100"
  let ?f = "distributeRewards example_env referral_db_no_invitee verified_referral 500 100"
  let ?r0 = "\<lparr>rf_id = 1, inviterUserId = 1, inviteeUserId = 3, referralCode = ''NUV-XYZ789'',
            rf_status = Pending, firstLogin = False, firstOnchainAction = False,
            minXPReached = False, minXPThreshold = 100, rewardInviterXP = 0,
            rewardInviteeXP = 0, rewardedAt = None\<rparr>"
  let ?r2 = "verified_referral\<lparr>rewardInviterXP := 500, rewardInviteeXP := 100, rf_status := Rewarded,
                            rewardedAt := Some (now example_env)\<rparr>"
  have c: "snd ?c = Inr ?r0"
    by (simp add: referral_defs toUpperCase_example)
  have d: "snd ?d = Inr ?r2"
    by (simp add: referral_defs)
  have f: "snd ?f = Inl ''User not found''"
    by (simp add: referral_defs referral_db_no_invitee_def)
  have b: "balance_of (fst ?d) 1 = Some 540" "balance_of (fst ?d) 2 = Some 220"
    "map rf_status (referrals (fst ?d)) = [Rewarded]"
    by (simp_all add: referral_defs)
  have pc: "?c = (fst ?c, Inr ?r0)" using c by (metis prod.collapse)
  have pd: "?d = (fst ?d, Inr ?r2)" using d by (metis prod.collapse)
  have pf: "?f = (fst ?f, Inl ''User not found'')" using f by (metis prod.collapse)
  have ex: "\<exists>r' \<in> set (referrals referral_db). inviteeUserId r' = 2"
    by (simp add: referral_db_def verified_referral_def)
  note t = referral_single_use [where s = referral_db and inviter = 1 and invitee = 3
      and code = "''nuv-xyz789''" and ?s1.0 = "fst ?c" and ?r0.0 = ?r0 and inviter' = 1
      and code' = "''nuv-xyz789''" and r = verified_referral and en = example_env and x = 500
      and y = 100 and ?s2.0 = "fst ?d" and ?r2.0 = ?r2 and en' = example_env and x' = 500
      and y' = 100]
  note t2 = referral_single_use [where s = referral_db and inviter = 5 and invitee = 2
      and code = "''nuv-xyz789''"]
  note t3 = referral_single_use [where s = referral_db_no_invitee and r = verified_referral
      and en = example_env and x = 500 and y = 100 and ?s3.0 = "fst ?f" and err = "''User not found''"]
  have 1: "createReferral (fst ?c) 1 3 ''nuv-xyz789'' = (fst ?c, Inl ''User has already been referred'')"
    using t pc by blast
  have 2: "distributeRewards example_env (fst ?d) ?r2 500 100
             = (fst ?d, Inl ''Referral must be verified before distributing rewards'')"
    using t pd by blast
  have 3: "createReferral referral_db 5 2 ''nuv-xyz789''
             = (referral_db, Inl ''User has already been referred'')"
    using t2 ex by blast
  have 4: "referrals (fst ?f) = referrals referral_db_no_invitee"
    using t3 pf by blast
  show ?thesis
    using c b 1 2 3 4 f by blast
qed

text \<open>
  C9 as stated fails: the two awards and the change of status are three separate
  writes. When the award of the invitee throws (here the invitee's user document is
  gone), the inviter has been paid and the status is still \<open>verified\<close>, so a second
  invocation pays the inviter a second time: 40, then 540, then 1040.
\<close>

theorem partial_distribution_counterexample:
  "rf_status verified_referral = RVerified
   \<and> balance_of referral_db_no_invitee 1 = Some 40
   \<and> snd (distributeRewards example_env referral_db_no_invitee verified_referral 500 100)
       = Inl ''User not found''
   \<and> balance_of (fst (distributeRewards example_env referral_db_no_invitee verified_referral 500 100)) 1
       = Some 540
   \<and> map rf_status
        (referrals (fst (distributeRewards example_env referral_db_no_invitee verified_referral 500 100)))
       = [RVerified]
   \<and> balance_of
        (fst (distributeRewards example_env
                (fst (distributeRewards example_env referral_db_no_invitee verified_referral 500 100))
                verified_referral 500 100)) 1
       = Some 1040
   \<and> map deltaXP
        (ledger (fst (distributeRewards example_env
                        (fst (distributeRewards example_env referral_db_no_invitee verified_referral 500 100))
                        verified_referral 500 100)))
       = [500, 500]"
  by (simp add: referral_defs referral_db_no_invitee_def)

text \<open>
  The status that \<open>distributeRewards\<close> reads is the one of the document in memory. A
  copy of the referral that was loaded before a first invocation returned still says
  \<open>verified\<close>, and an invocation on that copy pays both sides again.
\<close>

lemma stale_document_pays_again:
  "balance_of (fst (distributeRewards example_env
                      (fst (distributeRewards example_env referral_db verified_referral 500 100))
                      verified_referral 500 100)) 1 = Some 1040
   \<and> balance_of (fst (distributeRewards example_env
                      (fst (distributeRewards example_env referral_db verified_referral 500 100))
                      verified_referral 500 100)) 2 = Some 320"
  by (simp add: referral_defs)

end
